theory Spec2Isabelle
  imports Complex_Main "HOL-Library.Sublist" "HOL-Library.Multiset"
begin

section \<open>Text values\<close>

text \<open>
  The program is Python 3: a \<open>str\<close> is a sequence of Unicode code points, \<open>len\<close> and
  slicing count code points, and \<open>a in b\<close> is contiguous containment. The response
  phrases of the classifier contain Vietnamese letters beyond Latin-1, so a text value is
  a list of code points. \<open>asc\<close> turns an ASCII literal into its code points.
\<close>

type_synonym pystr = "nat list"

definition asc :: "string \<Rightarrow> pystr" where
  "asc s = map of_char s"

text \<open>Python's \<open>needle in hay\<close> on \<open>str\<close>.\<close>

fun starts_with :: "pystr \<Rightarrow> pystr \<Rightarrow> bool" where
  "starts_with [] hay = True"
| "starts_with (n # ns) [] = False"
| "starts_with (n # ns) (h # hs) = (n = h \<and> starts_with ns hs)"

fun py_in :: "pystr \<Rightarrow> pystr \<Rightarrow> bool" where
  "py_in needle [] = (needle = [])"
| "py_in needle (h # hs) = (starts_with needle (h # hs) \<or> py_in needle hs)"

text \<open>\<open>any(indicator in text for indicator in indicators)\<close>.\<close>

fun any_in :: "pystr list \<Rightarrow> pystr \<Rightarrow> bool" where
  "any_in [] text = False"
| "any_in (indicator # rest) text = (py_in indicator text \<or> any_in rest text)"

text \<open>\<open>str(n)\<close> for an integer: decimal digits, with a minus sign below zero.\<close>

fun str_nat :: "nat \<Rightarrow> pystr" where
  "str_nat n = (if n < 10 then [48 + n] else str_nat (n div 10) @ [48 + n mod 10])"

declare str_nat.simps [simp del]

definition str_int :: "int \<Rightarrow> pystr" where
  "str_int i = (if i < 0 then 45 # str_nat (nat (- i)) else str_nat (nat i))"

section \<open>Response classification\<close>

text \<open>
  The classification tags are string constants in the source (\<open>"SUCCESS"\<close>,
  \<open>"CAPTCHA_ERROR"\<close>, ...); they form a closed set and are a datatype here.
  \<open>NO_RESULT\<close> is the default of \<open>batch_results.get\<close> in the retry loop.
\<close>

datatype error_type =
    SUCCESS | EMPTY_RESPONSE | CAPTCHA_ERROR | SLOT_FULL | ALREADY_REGISTERED
  | SERVER_ERROR | SERVER_CLOSED | CONNECTION_ERROR | UNKNOWN_ERROR
  | SERVER_503 | SERVER_500 | HTTP_ERROR | TIMEOUT | EXCEPTION
  | CAPTCHA_EXPIRED | NO_RESULT

definition success_indicators :: "pystr list" where
  "success_indicators =
    [asc ''!!!true|~~|'',
     asc ''th'' @ [224] @ asc ''nh c'' @ [244] @ asc ''ng'',
     asc ''thanh cong'',
     asc ''success'']"

definition captcha_error_indicators :: "pystr list" where
  "captcha_error_indicators =
    [asc ''captcha kh'' @ [244] @ asc ''ng h'' @ [7907] @ asc ''p l'' @ [7879],
     asc ''captcha khong hop le'',
     asc ''invalid captcha'',
     asc ''captcha sai'',
     asc ''sai captcha'',
     asc ''wrong captcha'',
     asc ''captcha incorrect'',
     asc ''m'' @ [227] @ asc '' x'' @ [225] @ asc ''c nh'' @ [7853] @ asc ''n kh'' @ [244] @ asc ''ng '' @ [273] @ [250] @ asc ''ng'',
     asc ''ma xac nhan khong dung'',
     asc ''verification code is incorrect'',
     asc ''captcha expired'',
     asc ''captcha h'' @ [7871] @ asc ''t h'' @ [7841] @ asc ''n'',
     asc ''captcha het han'']"

definition slot_full_indicators :: "pystr list" where
  "slot_full_indicators =
    [asc ''phi'' @ [234] @ asc ''n mua h'' @ [224] @ asc ''ng '' @ [273] @ [227] @ asc '' h'' @ [7871] @ asc ''t s'' @ [7889] @ asc '' l'' @ [432] @ [7907] @ asc ''ng'',
     asc ''phien mua hang da het so luong'',
     asc ''the purchase session is out of stock'',
     asc ''out of stock'',
     asc ''het slot'',
     asc ''h'' @ [7871] @ asc ''t slot'']"

definition already_registered_indicators :: "pystr list" where
  "already_registered_indicators =
    [asc ''cccd/h'' @ [7897] @ asc '' chi'' @ [7871] @ asc ''u '' @ [273] @ [227] @ asc '' '' @ [273] @ [432] @ [7907] @ asc ''c '' @ [273] @ [259] @ asc ''ng k'' @ [253],
     asc ''cccd/ho chieu da duoc dang ky'',
     [273] @ [227] @ asc '' '' @ [273] @ [259] @ asc ''ng k'' @ [253],
     asc ''da dang ky'',
     asc ''already registered'',
     asc ''already exists'']"

definition server_error_indicators :: "pystr list" where
  "server_error_indicators =
    [asc ''service is unavailable'',
     asc ''server error'',
     asc ''internal server error'',
     asc ''l'' @ [7895] @ asc ''i h'' @ [7879] @ asc '' th'' @ [7889] @ asc ''ng'',
     asc ''loi he thong'']"

definition server_closed_indicators :: "pystr list" where
  "server_closed_indicators =
    [asc ''link '' @ [273] @ [259] @ asc ''ng k'' @ [253] @ asc '' '' @ [273] @ asc ''ang t'' @ [7841] @ asc ''m '' @ [273] @ [243] @ asc ''ng'',
     asc ''link dang ky dang tam dong'',
     asc ''registration link is temporarily closed'',
     asc ''temporarily closed'',
     asc ''tam dong'',
     asc ''t'' @ [7841] @ asc ''m '' @ [273] @ [243] @ asc ''ng'']"

definition connection_error_indicators :: "pystr list" where
  "connection_error_indicators =
    [asc ''connection error'',
     asc ''network error'',
     asc ''timeout'',
     asc ''l'' @ [7895] @ asc ''i k'' @ [7871] @ asc ''t n'' @ [7889] @ asc ''i'',
     asc ''loi ket noi'']"

text \<open>The descriptions returned beside each tag.\<close>

definition desc_empty :: pystr where
  "desc_empty = asc ''Kh'' @ [244] @ asc ''ng c'' @ [243] @ asc '' response''"

definition desc_success :: pystr where
  "desc_success = [272] @ [259] @ asc ''ng k'' @ [253] @ asc '' th'' @ [224] @ asc ''nh c'' @ [244] @ asc ''ng''"

definition desc_captcha :: pystr where
  "desc_captcha = asc ''Captcha kh'' @ [244] @ asc ''ng h'' @ [7907] @ asc ''p l'' @ [7879]"

definition desc_slot_full :: pystr where
  "desc_slot_full = [272] @ [227] @ asc '' h'' @ [7871] @ asc ''t slot''"

definition desc_already :: pystr where
  "desc_already = [272] @ [227] @ asc '' '' @ [273] @ [259] @ asc ''ng k'' @ [253] @ asc '' r'' @ [7891] @ asc ''i''"

definition desc_server_error :: pystr where
  "desc_server_error = asc ''L'' @ [7895] @ asc ''i server''"

definition desc_server_closed :: pystr where
  "desc_server_closed = asc ''Server t'' @ [7841] @ asc ''m '' @ [273] @ [243] @ asc ''ng''"

definition desc_connection :: pystr where
  "desc_connection = asc ''L'' @ [7895] @ asc ''i k'' @ [7871] @ asc ''t n'' @ [7889] @ asc ''i''"

definition desc_unknown :: pystr where
  "desc_unknown = asc ''L'' @ [7895] @ asc ''i kh'' @ [244] @ asc ''ng x'' @ [225] @ asc ''c '' @ [273] @ [7883] @ asc ''nh: ''"

text \<open>
  \<open>classify_error(response_text, status_code)\<close>. The status code is accepted and never
  read by the body. \<open>str.lower\<close> is the interpreter's Unicode case mapping; it is the
  parameter \<open>lower\<close> of the model, so every statement below holds for whatever mapping
  the interpreter applies.
\<close>

definition classify_error :: "(pystr \<Rightarrow> pystr) \<Rightarrow> pystr \<Rightarrow> int \<Rightarrow> error_type \<times> pystr" where
  "classify_error lower response_text status_code =
     (if response_text = [] then (EMPTY_RESPONSE, desc_empty)
      else let response_lower = lower response_text in
        if any_in success_indicators response_lower then (SUCCESS, desc_success)
        else if any_in captcha_error_indicators response_lower then (CAPTCHA_ERROR, desc_captcha)
        else if any_in slot_full_indicators response_lower then (SLOT_FULL, desc_slot_full)
        else if any_in already_registered_indicators response_lower
          then (ALREADY_REGISTERED, desc_already)
        else if any_in server_error_indicators response_lower then (SERVER_ERROR, desc_server_error)
        else if any_in server_closed_indicators response_lower
          then (SERVER_CLOSED, desc_server_closed)
        else if any_in connection_error_indicators response_lower
          then (CONNECTION_ERROR, desc_connection)
        else (UNKNOWN_ERROR, desc_unknown @ take 100 response_text))"

text \<open>
  The precedence table in the words of the specification: an ordered list of rules, each
  a tag with its phrases; the first rule one of whose phrases occurs in the lowercased
  body decides, and a body that matches no rule is \<open>UNKNOWN_ERROR\<close> with the first 100
  characters of the body.
\<close>

definition precedence_table :: "(error_type \<times> pystr \<times> pystr list) list" where
  "precedence_table =
     [(SUCCESS, desc_success, success_indicators),
      (CAPTCHA_ERROR, desc_captcha, captcha_error_indicators),
      (SLOT_FULL, desc_slot_full, slot_full_indicators),
      (ALREADY_REGISTERED, desc_already, already_registered_indicators),
      (SERVER_ERROR, desc_server_error, server_error_indicators),
      (SERVER_CLOSED, desc_server_closed, server_closed_indicators),
      (CONNECTION_ERROR, desc_connection, connection_error_indicators)]"

fun first_match :: "(error_type \<times> pystr \<times> pystr list) list \<Rightarrow> pystr \<Rightarrow> (error_type \<times> pystr) option" where
  "first_match [] low = None"
| "first_match ((tag, desc, phrases) # rules) low =
     (if list_ex (\<lambda>phrase. sublist phrase low) phrases then Some (tag, desc)
      else first_match rules low)"

definition classify_by_precedence :: "(pystr \<Rightarrow> pystr) \<Rightarrow> pystr \<Rightarrow> error_type \<times> pystr" where
  "classify_by_precedence lower body =
     (if length body = 0 then (EMPTY_RESPONSE, desc_empty)
      else case first_match precedence_table (lower body) of
             Some r \<Rightarrow> r
           | None \<Rightarrow> (UNKNOWN_ERROR, desc_unknown @ take 100 body))"

section \<open>Session pool\<close>

text \<open>
  A \<open>requests.Session\<close> object is identified by the order of its construction:
  \<open>created\<close> counts the objects built so far, and the next one gets that number.
  \<open>closed_sessions\<close> lists the sessions on which \<open>close()\<close> was called. \<open>pool_log\<close>
  is an observation of the calls: one \<open>Acquired\<close> entry where \<open>get_session_from_pool\<close>
  hands a session out and one \<open>Released\<close> entry per \<open>return_session_to_pool\<close>.
  \<open>max_workers\<close> is fixed at construction and is an argument where it is read.
\<close>

type_synonym session = nat

datatype pool_event = Acquired session | Released session

record pool =
  session_pool :: "session list"
  max_pool_size :: int
  hard_cap :: int
  inflight_sessions :: int
  stop_event :: bool
  created :: nat
  closed_sessions :: "session list"
  pool_log :: "pool_event list"

definition new_pool :: "int \<Rightarrow> pool" where
  "new_pool max_workers =
     \<lparr>session_pool = [], max_pool_size = max_workers + 8, hard_cap = max_workers + 16,
      inflight_sessions = 0, stop_event = False, created = 0, closed_sessions = [],
      pool_log = []\<rparr>"

definition create_session_with_pool :: "pool \<Rightarrow> session \<times> pool" where
  "create_session_with_pool p = (created p, p\<lparr>created := Suc (created p)\<rparr>)"

text \<open>\<open>for i in range(pool_size)\<close>: nothing for a size of zero or less.\<close>

fun fill_pool :: "nat \<Rightarrow> pool \<Rightarrow> pool" where
  "fill_pool 0 p = p"
| "fill_pool (Suc n) p =
     (case create_session_with_pool p of
        (session, p1) \<Rightarrow> fill_pool n (p1\<lparr>session_pool := session_pool p1 @ [session]\<rparr>))"

definition init_session_pool :: "int \<Rightarrow> int option \<Rightarrow> pool \<Rightarrow> pool" where
  "init_session_pool max_workers pool_size p =
     (let wanted = (case pool_size of None \<Rightarrow> max_workers | Some n \<Rightarrow> n)
      in fill_pool (nat wanted) (p\<lparr>session_pool := []\<rparr>))"

text \<open>The pool size \<open>run\<close> asks for: \<open>max(self.max_workers, len(self.profiles) + 5)\<close>.\<close>

definition run_pool_size :: "int \<Rightarrow> nat \<Rightarrow> int" where
  "run_pool_size max_workers n_profiles = max max_workers (int n_profiles + 5)"

text \<open>
  \<open>get_session_from_pool\<close> has three sections that change the counters, each under the
  lock: taking an idle session; creating one while idle plus in flight is below the hard
  cap; and, once the stop event is seen set, creating one whatever the count.
\<close>

definition take_idle :: "pool \<Rightarrow> (session \<times> pool) option" where
  "take_idle p =
     (case session_pool p of
        [] \<Rightarrow> None
      | s # rest \<Rightarrow>
          Some (s, p\<lparr>inflight_sessions := inflight_sessions p + 1, session_pool := rest,
                     pool_log := pool_log p @ [Acquired s]\<rparr>))"

definition pool_total :: "pool \<Rightarrow> int" where
  "pool_total p = int (length (session_pool p)) + inflight_sessions p"

definition create_counted :: "pool \<Rightarrow> session \<times> pool" where
  "create_counted p =
     (case create_session_with_pool (p\<lparr>inflight_sessions := inflight_sessions p + 1\<rparr>) of
        (s, p1) \<Rightarrow> (s, p1\<lparr>pool_log := pool_log p1 @ [Acquired s]\<rparr>))"

definition create_under_cap :: "pool \<Rightarrow> (session \<times> pool) option" where
  "create_under_cap p =
     (let total = int (length (session_pool p)) + inflight_sessions p
      in if total < hard_cap p then Some (create_counted p) else None)"

definition create_on_stop :: "pool \<Rightarrow> (session \<times> pool) option" where
  "create_on_stop p = (if stop_event p then Some (create_counted p) else None)"

text \<open>
  One thread running \<open>get_session_from_pool\<close> with no other thread touching the pool:
  \<open>None\<close> is the loop that sleeps 5 ms and checks again for ever, the counters being
  at the cap and the stop event unset.
\<close>

definition get_session_from_pool :: "pool \<Rightarrow> (session \<times> pool) option" where
  "get_session_from_pool p =
     (case take_idle p of
        Some r \<Rightarrow> Some r
      | None \<Rightarrow>
          (case create_under_cap p of
             Some r \<Rightarrow> Some r
           | None \<Rightarrow> create_on_stop p))"

definition return_session_to_pool :: "session \<Rightarrow> pool \<Rightarrow> pool" where
  "return_session_to_pool session p =
     (let p1 = p\<lparr>inflight_sessions := inflight_sessions p - 1,
                  pool_log := pool_log p @ [Released session]\<rparr>
      in if int (length (session_pool p1)) < max_pool_size p1
         then p1\<lparr>session_pool := session_pool p1 @ [session]\<rparr>
         else p1\<lparr>closed_sessions := closed_sessions p1 @ [session]\<rparr>)"

text \<open>
  Threads interleave at the locked sections. One step of the pool is one such section
  run by some thread, a release by some thread, or the stop event being set.
\<close>

inductive pool_step :: "pool \<Rightarrow> pool \<Rightarrow> bool" where
  step_take: "take_idle p = Some (s, p') \<Longrightarrow> pool_step p p'"
| step_create: "create_under_cap p = Some (s, p') \<Longrightarrow> pool_step p p'"
| step_bypass: "create_on_stop p = Some (s, p') \<Longrightarrow> pool_step p p'"
| step_release: "pool_step p (return_session_to_pool s p)"
| step_stop: "pool_step p (p\<lparr>stop_event := True\<rparr>)"

section \<open>One submission attempt\<close>

text \<open>
  What \<open>session.get\<close> does is the environment's choice: a response with a status code
  and a body, \<open>requests.exceptions.Timeout\<close>, or any other exception with its message.
\<close>

datatype http_reply = Response int pystr | Timeout_raised | Exception_raised pystr

record profile =
  profile_name :: pystr
  full_name :: pystr
  dob_day :: pystr
  dob_month :: pystr
  dob_year :: pystr
  phone :: pystr
  email :: pystr
  id_card :: pystr

type_synonym outcome = "bool \<times> error_type \<times> pystr"

text \<open>The \<open>try\<close> block of \<open>register_single_attempt\<close> with its \<open>except\<close> clauses.\<close>

definition attempt_body :: "(pystr \<Rightarrow> pystr) \<Rightarrow> http_reply \<Rightarrow> outcome" where
  "attempt_body lower reply =
     (case reply of
        Response status_code text \<Rightarrow>
          if status_code = 503 then (False, SERVER_503, asc ''HTTP 503 Service Unavailable'')
          else if status_code = 500
            then (False, SERVER_500, asc ''HTTP 500 Internal Server Error'')
          else if status_code \<noteq> 200
            then (False, HTTP_ERROR, asc ''HTTP '' @ str_int status_code @ asc '': '' @ take 100 text)
          else (case classify_error lower text status_code of
                  (error_type, description) \<Rightarrow>
                    if error_type = SUCCESS then (True, SUCCESS, text)
                    else (False, error_type,
                          asc ''[HTTP '' @ str_int status_code @ asc ''] '' @ text))
      | Timeout_raised \<Rightarrow> (False, TIMEOUT, asc ''Request timeout'')
      | Exception_raised msg \<Rightarrow> (False, EXCEPTION, msg))"

text \<open>
  \<open>register_single_attempt\<close>: the session is taken before the \<open>try\<close>, and the
  \<open>finally\<close> clause returns it after the body, whatever the body did. \<open>None\<close> is the
  attempt still waiting for a session.
\<close>

definition register_single_attempt ::
  "(pystr \<Rightarrow> pystr) \<Rightarrow> http_reply \<Rightarrow> pool \<Rightarrow> (outcome \<times> pool) option" where
  "register_single_attempt lower reply p =
     (case get_session_from_pool p of
        None \<Rightarrow> None
      | Some (session, p1) \<Rightarrow>
          (let result = attempt_body lower reply
           in Some (result, return_session_to_pool session p1)))"

section \<open>Credential lifecycle\<close>

text \<open>
  \<open>re.search(r"src=[\"']([^\"']+)[\"']", response.text)\<close>: the leftmost position where
  \<open>src=\<close>, a quote, one or more characters that are not quotes, and a quote follow each
  other; the result is the run between the quotes. The run is greedy and stops only at
  a quote, so a position matches exactly when the run is non-empty and a quote ends it.
\<close>

definition is_quote :: "nat \<Rightarrow> bool" where
  "is_quote c = (c = 34 \<or> c = 39)"

definition match_src_here :: "pystr \<Rightarrow> pystr option" where
  "match_src_here t =
     (if starts_with (asc ''src='') t then
        (case drop 4 t of
           [] \<Rightarrow> None
         | q # rest \<Rightarrow>
             if is_quote q then
               (let url = takeWhile (\<lambda>c. \<not> is_quote c) rest;
                    after = dropWhile (\<lambda>c. \<not> is_quote c) rest
                in if url \<noteq> [] \<and> after \<noteq> [] then Some url else None)
             else None)
      else None)"

fun re_search_src :: "pystr \<Rightarrow> pystr option" where
  "re_search_src [] = None"
| "re_search_src (c # cs) =
     (case match_src_here (c # cs) of
        Some url \<Rightarrow> Some url
      | None \<Rightarrow> re_search_src cs)"

text \<open>
  One pass of the \<open>while True\<close> loop of \<open>get_fresh_captcha\<close>. The environment of a pass
  is the reply to the \<open>LoadCaptcha\<close> request, the reply to the image request (its body
  being the image bytes) and the reading of \<open>time.time()\<close> taken on success. The OCR
  model \<open>predict_from_bytes\<close> is the parameter \<open>ocr\<close>: it returns a text or raises.
\<close>

record captcha_attempt =
  load_reply :: http_reply
  image_reply :: http_reply
  success_time :: real

datatype ocr_result = Ocr_text pystr | Ocr_raised

datatype attempt_result = Retry | Got "pystr \<times> real"

definition solve_image :: "(nat list \<Rightarrow> ocr_result) \<Rightarrow> captcha_attempt \<Rightarrow> attempt_result" where
  "solve_image ocr a =
     (case image_reply a of
        Response status_code content \<Rightarrow>
          if status_code = 503 then Retry
          else if status_code \<noteq> 200 then Retry
          else (case ocr content of
                  Ocr_text captcha_text \<Rightarrow>
                    if captcha_text = [] \<or> length captcha_text \<noteq> 5 then Retry
                    else Got (captcha_text, success_time a)
                | Ocr_raised \<Rightarrow> Retry)
      | Timeout_raised \<Rightarrow> Retry
      | Exception_raised msg \<Rightarrow> Retry)"

definition captcha_attempt_once ::
  "(nat list \<Rightarrow> ocr_result) \<Rightarrow> captcha_attempt \<Rightarrow> attempt_result" where
  "captcha_attempt_once ocr a =
     (case load_reply a of
        Response status_code text \<Rightarrow>
          if status_code = 503 then Retry
          else if status_code \<noteq> 200 then Retry
          else (case re_search_src text of
                  None \<Rightarrow> Retry
                | Some path \<Rightarrow> solve_image ocr a)
      | Timeout_raised \<Rightarrow> Retry
      | Exception_raised msg \<Rightarrow> Retry)"

text \<open>
  The loop runs over the passes the environment supplies, one after the other with
  nothing in between. \<open>None\<close> is the loop still running when the supplied passes are
  used up: it has not returned.
\<close>

fun get_fresh_captcha ::
  "(nat list \<Rightarrow> ocr_result) \<Rightarrow> captcha_attempt list \<Rightarrow> (pystr \<times> real) option" where
  "get_fresh_captcha ocr [] = None"
| "get_fresh_captcha ocr (a # rest) =
     (case captcha_attempt_once ocr a of
        Got credential \<Rightarrow> Some credential
      | Retry \<Rightarrow> get_fresh_captcha ocr rest)"

text \<open>
  \<open>is_captcha_valid\<close> reads \<open>time.time()\<close>; the reading is the argument \<open>now\<close>. Clock
  readings are real numbers here (the rounding of the float subtraction is not modelled).
\<close>

definition is_captcha_valid :: "real \<Rightarrow> real \<Rightarrow> int \<Rightarrow> bool" where
  "is_captcha_valid now captcha_timestamp ttl_seconds =
     (let elapsed = now - captcha_timestamp in elapsed < real_of_int ttl_seconds)"

text \<open>
  The failures of a pass, in the words of the specification: a status other than 200 on
  either request, a timeout or any other error on either request, no embedded image
  reference in the body, an OCR exception, or an OCR text that is empty or not exactly
  five characters long.
\<close>

definition reply_failed :: "http_reply \<Rightarrow> bool" where
  "reply_failed r = (case r of Response code body \<Rightarrow> code \<noteq> 200 | _ \<Rightarrow> True)"

definition reply_body :: "http_reply \<Rightarrow> pystr" where
  "reply_body r = (case r of Response code body \<Rightarrow> body | _ \<Rightarrow> [])"

definition ocr_failed :: "ocr_result \<Rightarrow> bool" where
  "ocr_failed r = (case r of Ocr_text t \<Rightarrow> length t \<noteq> 5 | Ocr_raised \<Rightarrow> True)"

definition pass_fails :: "(nat list \<Rightarrow> ocr_result) \<Rightarrow> captcha_attempt \<Rightarrow> bool" where
  "pass_fails ocr a =
     (reply_failed (load_reply a)
      \<or> re_search_src (reply_body (load_reply a)) = None
      \<or> reply_failed (image_reply a)
      \<or> ocr_failed (ocr (reply_body (image_reply a))))"

section \<open>Fan-out dispatcher\<close>

datatype py_error = ValueError

text \<open>\<open>range(start, stop, step)\<close> for a step other than zero.\<close>

function py_range :: "int \<Rightarrow> int \<Rightarrow> int \<Rightarrow> int list" where
  "py_range i stop step =
     (if 0 < step \<and> i < stop then i # py_range (i + step) stop step
      else if step < 0 \<and> stop < i then i # py_range (i + step) stop step
      else [])"
  by pat_completeness auto
termination
  by (relation "measure (\<lambda>(i, stop, step). nat (if 0 < step then stop - i else i - stop))") auto

declare py_range.simps [simp del]

text \<open>\<open>xs[i:j]\<close> for indices that are not negative.\<close>

definition py_slice :: "'a list \<Rightarrow> int \<Rightarrow> int \<Rightarrow> 'a list" where
  "py_slice xs i j = drop (nat i) (take (nat j) xs)"

text \<open>
  The chunk list of \<open>register_batch_with_shared_captcha\<close>. \<open>range\<close> raises
  \<open>ValueError\<close> on a step of zero.
\<close>

definition split_chunks :: "int \<Rightarrow> 'a list \<Rightarrow> py_error + 'a list list" where
  "split_chunks max_workers profiles =
     (if int (length profiles) > max_workers then
        (if max_workers = 0 then Inl ValueError
         else Inr (map (\<lambda>i. py_slice profiles i (i + max_workers))
                       (py_range 0 (int (length profiles)) max_workers)))
      else Inr [profiles])"

text \<open>
  What the dispatcher does is observed as events: a task handed to the executor with the
  arguments of \<open>register_single_attempt\<close>, a result collected from a finished task, and a
  sleep. The environment of a chunk is the clock reading of the validity check before
  it, the reply each submission of the chunk receives (by position in the chunk), and
  the rank at which each task finishes, which orders \<open>as_completed\<close>. The value of a
  future is the value \<open>register_single_attempt\<close> returns, which is \<open>attempt_body\<close> of the
  reply; the sessions the workers take and give back are the subject of the pool
  section.
\<close>

datatype event = Submit profile int int pystr | Collected pystr | Sleep_ms nat

record chunk_env =
  chunk_now :: real
  replies :: "nat \<Rightarrow> http_reply"
  finish_rank :: "nat \<Rightarrow> nat"

type_synonym results = "pystr \<rightharpoonup> outcome"

definition expired_outcome :: outcome where
  "expired_outcome = (False, CAPTCHA_EXPIRED, asc ''Captcha expired before batch'')"

fun mark_expired :: "profile list \<Rightarrow> results \<Rightarrow> results" where
  "mark_expired [] results = results"
| "mark_expired (profile # rest) results =
     mark_expired rest (results(profile_name profile \<mapsto> expired_outcome))"

definition as_completed :: "chunk_env \<Rightarrow> profile list \<Rightarrow> (nat \<times> profile) list" where
  "as_completed env chunk =
     sort_key (\<lambda>(i, profile). finish_rank env i) (zip [0..<length chunk] chunk)"

fun collect_results ::
  "(pystr \<Rightarrow> pystr) \<Rightarrow> chunk_env \<Rightarrow> (nat \<times> profile) list \<Rightarrow> results \<Rightarrow> results" where
  "collect_results lower env [] results = results"
| "collect_results lower env ((i, profile) # rest) results =
     collect_results lower env rest
       (results(profile_name profile \<mapsto> attempt_body lower (replies env i)))"

definition process_chunk ::
  "(pystr \<Rightarrow> pystr) \<Rightarrow> chunk_env \<Rightarrow> nat \<Rightarrow> nat \<Rightarrow> int \<Rightarrow> int \<Rightarrow> pystr \<Rightarrow> real
    \<Rightarrow> profile list \<Rightarrow> results \<times> event list \<Rightarrow> results \<times> event list" where
  "process_chunk lower env chunk_idx n_chunks date_id session_id captcha_text captcha_timestamp
      chunk acc =
     (case acc of (results, events) \<Rightarrow>
        if \<not> is_captcha_valid (chunk_now env) captcha_timestamp 55
        then (mark_expired chunk results, events)
        else
          (let done = as_completed env chunk
           in (collect_results lower env done results,
               events
               @ map (\<lambda>profile. Submit profile date_id session_id captcha_text) chunk
               @ map (\<lambda>(i, profile). Collected (profile_name profile)) done
               @ (if chunk_idx < n_chunks then [Sleep_ms 30] else []))))"

text \<open>\<open>for chunk_idx, chunk in enumerate(chunks, 1)\<close>.\<close>

fun run_chunks ::
  "(pystr \<Rightarrow> pystr) \<Rightarrow> (nat \<Rightarrow> chunk_env) \<Rightarrow> nat \<Rightarrow> nat \<Rightarrow> int \<Rightarrow> int \<Rightarrow> pystr \<Rightarrow> real
    \<Rightarrow> profile list list \<Rightarrow> results \<times> event list \<Rightarrow> results \<times> event list" where
  "run_chunks lower world chunk_idx n_chunks date_id session_id captcha_text captcha_timestamp
      [] acc = acc"
| "run_chunks lower world chunk_idx n_chunks date_id session_id captcha_text captcha_timestamp
      (chunk # rest) acc =
     run_chunks lower world (Suc chunk_idx) n_chunks date_id session_id captcha_text
       captcha_timestamp rest
       (process_chunk lower (world chunk_idx) chunk_idx n_chunks date_id session_id captcha_text
          captcha_timestamp chunk acc)"

definition register_batch_with_shared_captcha ::
  "(pystr \<Rightarrow> pystr) \<Rightarrow> (nat \<Rightarrow> chunk_env) \<Rightarrow> int \<Rightarrow> profile list \<Rightarrow> int \<Rightarrow> int \<Rightarrow> pystr \<Rightarrow> real
    \<Rightarrow> py_error + results \<times> event list" where
  "register_batch_with_shared_captcha lower world max_workers profiles date_id session_id
      captcha_text captcha_timestamp =
     (case split_chunks max_workers profiles of
        Inl e \<Rightarrow> Inl e
      | Inr chunks \<Rightarrow>
          Inr (run_chunks lower world 1 (length chunks) date_id session_id captcha_text
                 captcha_timestamp chunks (Map.empty, [])))"

text \<open>
  The events of one chunk in the words of the specification: nothing when the credential
  is 55 seconds old or older at the start of the chunk; otherwise every submission of the
  chunk handed out, then every one of them collected, then a pause of 30 ms only when
  more chunks remain.
\<close>

definition chunk_trace ::
  "chunk_env \<Rightarrow> nat \<Rightarrow> nat \<Rightarrow> int \<Rightarrow> int \<Rightarrow> pystr \<Rightarrow> real \<Rightarrow> profile list \<Rightarrow> event list" where
  "chunk_trace env chunk_idx n_chunks date_id session_id captcha_text captcha_timestamp chunk =
     (if 55 \<le> chunk_now env - captcha_timestamp then []
      else map (\<lambda>profile. Submit profile date_id session_id captcha_text) chunk
           @ map (\<lambda>(i, profile). Collected (profile_name profile)) (as_completed env chunk)
           @ (if chunk_idx < n_chunks then [Sleep_ms 30] else []))"

section \<open>Tracking store\<close>

text \<open>
  The tracking fields of the object, with the two result lists and the log queue. A
  success entry is the profile name, the pair and the response; a failure entry is the
  profile name, the pair, the tag and the first 200 characters of the response (the
  source joins the last two into one text); both carry a time stamp in the source, which
  is left out. A log entry is the success flag with the same parts in place of the
  formatted line.
\<close>

type_synonym success_entry = "pystr \<times> int \<times> int \<times> pystr"
type_synonym failure_entry = "pystr \<times> int \<times> int \<times> error_type \<times> pystr"
type_synonym log_entry = "bool \<times> pystr \<times> int \<times> int \<times> error_type \<times> pystr"

record tracker =
  slot_full_pairs :: "(int \<times> int) set"
  already_registered_profiles :: "pystr \<rightharpoonup> int set"
  profile_successful_pairs :: "pystr \<rightharpoonup> (int \<times> int) set"
  successful_pairs_set :: "(pystr \<times> int \<times> int) set"
  successful_registrations :: "success_entry list"
  failed_registrations :: "failure_entry list"
  log_queue :: "log_entry list"

definition mark_slot_full :: "int \<Rightarrow> int \<Rightarrow> tracker \<Rightarrow> tracker" where
  "mark_slot_full date_id session_id t =
     t\<lparr>slot_full_pairs := insert (date_id, session_id) (slot_full_pairs t)\<rparr>"

definition is_slot_full :: "tracker \<Rightarrow> int \<Rightarrow> int \<Rightarrow> bool" where
  "is_slot_full t date_id session_id = ((date_id, session_id) \<in> slot_full_pairs t)"

definition mark_profile_already_registered :: "pystr \<Rightarrow> int \<Rightarrow> tracker \<Rightarrow> tracker" where
  "mark_profile_already_registered name date_id t =
     (let dates = (case already_registered_profiles t name of None \<Rightarrow> {} | Some ds \<Rightarrow> ds)
      in t\<lparr>already_registered_profiles :=
             (already_registered_profiles t)(name \<mapsto> insert date_id dates)\<rparr>)"

definition is_profile_already_registered_for_date :: "tracker \<Rightarrow> pystr \<Rightarrow> int \<Rightarrow> bool" where
  "is_profile_already_registered_for_date t name date_id =
     (case already_registered_profiles t name of
        None \<Rightarrow> False
      | Some ds \<Rightarrow> date_id \<in> ds)"

definition mark_profile_successful :: "pystr \<Rightarrow> int \<Rightarrow> int \<Rightarrow> tracker \<Rightarrow> tracker" where
  "mark_profile_successful name date_id session_id t =
     (let pairs = (case profile_successful_pairs t name of None \<Rightarrow> {} | Some ps \<Rightarrow> ps)
      in t\<lparr>profile_successful_pairs :=
             (profile_successful_pairs t)(name \<mapsto> insert (date_id, session_id) pairs),
           successful_pairs_set := insert (name, date_id, session_id) (successful_pairs_set t)\<rparr>)"

definition is_profile_successful :: "tracker \<Rightarrow> pystr \<Rightarrow> int \<Rightarrow> int \<Rightarrow> bool" where
  "is_profile_successful t name date_id session_id =
     ((name, date_id, session_id) \<in> successful_pairs_set t)"

definition can_profile_register :: "tracker \<Rightarrow> pystr \<Rightarrow> int \<Rightarrow> int \<Rightarrow> bool \<times> pystr" where
  "can_profile_register t name date_id session_id =
     (if is_profile_successful t name date_id session_id
        then (False, [272] @ [227] @ asc '' th'' @ [224] @ asc ''nh c'' @ [244] @ asc ''ng'')
      else if is_profile_already_registered_for_date t name date_id
        then (False, [272] @ [227] @ asc '' '' @ [273] @ [259] @ asc ''ng k'' @ [253]
                     @ asc '' ng'' @ [224] @ asc ''y '' @ str_int date_id)
      else if is_slot_full t date_id session_id
        then (False, asc ''C'' @ [7863] @ asc ''p '' @ [273] @ [227] @ asc '' h'' @ [7871]
                     @ asc ''t slot'')
      else (True, asc ''OK''))"

text \<open>\<open>log_message\<close>: \<open>put_nowait\<close> on a queue of at most 10000 entries; a full queue drops the entry.\<close>

definition log_message :: "log_entry \<Rightarrow> tracker \<Rightarrow> tracker" where
  "log_message entry t =
     (if length (log_queue t) < 10000 then t\<lparr>log_queue := log_queue t @ [entry]\<rparr> else t)"

section \<open>Retry orchestrator\<close>

text \<open>The lists and maps one round of the loop builds while it reads the results.\<close>

record round_acc =
  acc_tracker :: tracker
  acc_final :: "pystr \<rightharpoonup> bool"
  captcha_error_profiles :: "profile list"
  next_pending :: "profile list"

definition lookup_result :: "results \<Rightarrow> pystr \<Rightarrow> outcome" where
  "lookup_result batch_results name =
     (case batch_results name of None \<Rightarrow> (False, NO_RESULT, []) | Some r \<Rightarrow> r)"

text \<open>The body of \<open>for profile in pending_profiles\<close>.\<close>

definition evaluate_profile :: "int \<Rightarrow> int \<Rightarrow> results \<Rightarrow> profile \<Rightarrow> round_acc \<Rightarrow> round_acc" where
  "evaluate_profile date_id session_id batch_results profile acc =
     (let name = profile_name profile in
      case lookup_result batch_results name of (success, error_type, full_response) \<Rightarrow>
        if success then
          (let t1 = (acc_tracker acc)\<lparr>successful_registrations :=
                      successful_registrations (acc_tracker acc)
                      @ [(name, date_id, session_id, full_response)]\<rparr>;
               t2 = mark_profile_successful name date_id session_id t1;
               t3 = mark_profile_already_registered name date_id t2;
               t4 = log_message (True, name, date_id, session_id, SUCCESS, full_response) t3
           in acc\<lparr>acc_tracker := t4, acc_final := (acc_final acc)(name \<mapsto> True)\<rparr>)
        else
          (let acc1 =
                 (if error_type = CAPTCHA_ERROR then
                    acc\<lparr>captcha_error_profiles := captcha_error_profiles acc @ [profile]\<rparr>
                  else if error_type = SLOT_FULL then
                    acc\<lparr>acc_tracker := mark_slot_full date_id session_id (acc_tracker acc),
                        acc_final := (acc_final acc)(name \<mapsto> False)\<rparr>
                  else if error_type = ALREADY_REGISTERED then
                    acc\<lparr>acc_tracker := mark_profile_already_registered name date_id (acc_tracker acc),
                        acc_final := (acc_final acc)(name \<mapsto> False)\<rparr>
                  else acc\<lparr>next_pending := next_pending acc @ [profile]\<rparr>);
               t1 = (acc_tracker acc1)\<lparr>failed_registrations :=
                      failed_registrations (acc_tracker acc1)
                      @ [(name, date_id, session_id, error_type, take 200 full_response)]\<rparr>;
               t2 = log_message (False, name, date_id, session_id, error_type, full_response) t1
           in acc1\<lparr>acc_tracker := t2\<rparr>))"

fun evaluate_results :: "int \<Rightarrow> int \<Rightarrow> results \<Rightarrow> profile list \<Rightarrow> round_acc \<Rightarrow> round_acc" where
  "evaluate_results date_id session_id batch_results [] acc = acc"
| "evaluate_results date_id session_id batch_results (profile # rest) acc =
     evaluate_results date_id session_id batch_results rest
       (evaluate_profile date_id session_id batch_results profile acc)"

text \<open>
  The environment of one round: the clock reading of the 60 second check, the passes
  \<open>get_fresh_captcha\<close> meets if that check refreshes, the environment of each chunk by
  its number, and the passes \<open>get_fresh_captcha\<close> meets if the round ends with a refresh.
\<close>

record round_env =
  ttl_now :: real
  ttl_script :: "captcha_attempt list"
  chunk_world :: "nat \<Rightarrow> chunk_env"
  error_script :: "captcha_attempt list"

text \<open>
  \<open>Looping\<close>: the \<open>while\<close> loop is about to run another round. \<open>Finished\<close>: it was left,
  by its condition or by \<open>break\<close>. \<open>Blocked\<close>: \<open>get_fresh_captcha\<close> has not returned.
  \<open>Crashed\<close>: an exception left the function.
\<close>

datatype loop_status = Looping | Finished | Blocked | Crashed py_error

text \<open>
  What a round did, kept as an observation: the credential handed to the dispatcher, the
  pending list handed to it, the tracking store at that moment, the result map and the
  events of the dispatcher.
\<close>

record round_obs =
  used_captcha :: "pystr \<times> real"
  dispatched :: "profile list"
  round_tracker :: tracker
  round_results :: results
  round_events :: "event list"

record loop_state =
  tracker :: tracker
  pending_profiles :: "profile list"
  final_results :: "pystr \<rightharpoonup> bool"
  captcha :: "pystr \<times> real"
  rounds_log :: "round_obs list"
  status :: loop_status

text \<open>The end of a round: the new pending list, then the \<open>break\<close> on an exhausted pair.\<close>

definition finish_round :: "int \<Rightarrow> int \<Rightarrow> profile list \<Rightarrow> loop_state \<Rightarrow> loop_state" where
  "finish_round date_id session_id pending ls =
     ls\<lparr>pending_profiles := pending,
        status := (if is_slot_full (tracker ls) date_id session_id then Finished
                   else if pending = [] then Finished else Looping)\<rparr>"

text \<open>Steps 4 and 5 of a round, for the result map \<open>batch_results\<close> of its dispatch.\<close>

definition process_results ::
  "(nat list \<Rightarrow> ocr_result) \<Rightarrow> int \<Rightarrow> int \<Rightarrow> round_env \<Rightarrow> results \<Rightarrow> loop_state \<Rightarrow> loop_state" where
  "process_results ocr date_id session_id env batch_results ls =
     (let acc = evaluate_results date_id session_id batch_results (pending_profiles ls)
                  \<lparr>acc_tracker = tracker ls, acc_final = final_results ls,
                   captcha_error_profiles = [], next_pending = []\<rparr>;
          ls1 = ls\<lparr>tracker := acc_tracker acc, final_results := acc_final acc\<rparr>
      in if captcha_error_profiles acc \<noteq> [] then
           (case get_fresh_captcha ocr (error_script env) of
              None \<Rightarrow> ls1\<lparr>status := Blocked\<rparr>
            | Some fresh \<Rightarrow>
                finish_round date_id session_id
                  (next_pending acc @ captcha_error_profiles acc) (ls1\<lparr>captcha := fresh\<rparr>))
         else finish_round date_id session_id (next_pending acc) ls1)"

text \<open>One round of \<open>while pending_profiles\<close>.\<close>

definition one_round ::
  "(pystr \<Rightarrow> pystr) \<Rightarrow> (nat list \<Rightarrow> ocr_result) \<Rightarrow> int \<Rightarrow> int \<Rightarrow> int \<Rightarrow> round_env
    \<Rightarrow> loop_state \<Rightarrow> loop_state" where
  "one_round lower ocr max_workers date_id session_id env ls =
     (case (if \<not> is_captcha_valid (ttl_now env) (snd (captcha ls)) 60
            then get_fresh_captcha ocr (ttl_script env) else Some (captcha ls)) of
        None \<Rightarrow> ls\<lparr>status := Blocked\<rparr>
      | Some credential \<Rightarrow>
          (case register_batch_with_shared_captcha lower (chunk_world env) max_workers
                  (pending_profiles ls) date_id session_id (fst credential) (snd credential) of
             Inl e \<Rightarrow> ls\<lparr>captcha := credential, status := Crashed e\<rparr>
           | Inr (batch_results, events) \<Rightarrow>
               process_results ocr date_id session_id env batch_results
                 (ls\<lparr>captcha := credential,
                     rounds_log := rounds_log ls
                       @ [\<lparr>used_captcha = credential, dispatched = pending_profiles ls,
                           round_tracker = tracker ls, round_results = batch_results,
                           round_events = events\<rparr>]\<rparr>)))"

text \<open>
  The loop over the rounds the environment supplies. A state that is still \<open>Looping\<close>
  after the last supplied round is the loop in progress.
\<close>

fun run_rounds ::
  "(pystr \<Rightarrow> pystr) \<Rightarrow> (nat list \<Rightarrow> ocr_result) \<Rightarrow> int \<Rightarrow> int \<Rightarrow> int \<Rightarrow> round_env list
    \<Rightarrow> loop_state \<Rightarrow> loop_state" where
  "run_rounds lower ocr max_workers date_id session_id [] ls = ls"
| "run_rounds lower ocr max_workers date_id session_id (env # rest) ls =
     (if status ls = Looping
      then run_rounds lower ocr max_workers date_id session_id rest
             (one_round lower ocr max_workers date_id session_id env ls)
      else ls)"

text \<open>
  \<open>register_all_profiles_parallel\<close>. The report holds the returned map, the tracking
  store, the rounds observed and the status; the map is what the caller receives when
  the status is \<open>Finished\<close>. The session taken from the pool around each call of
  \<open>get_fresh_captcha\<close> is given back right after it; no worker holds a session at those
  moments.
\<close>

record report =
  result_map :: "pystr \<rightharpoonup> bool"
  report_tracker :: tracker
  report_rounds :: "round_obs list"
  report_status :: loop_status

definition register_all_profiles_parallel ::
  "(pystr \<Rightarrow> pystr) \<Rightarrow> (nat list \<Rightarrow> ocr_result) \<Rightarrow> int \<Rightarrow> profile list \<Rightarrow> int \<Rightarrow> int
    \<Rightarrow> captcha_attempt list \<Rightarrow> round_env list \<Rightarrow> tracker \<Rightarrow> report" where
  "register_all_profiles_parallel lower ocr max_workers profiles date_id session_id
      first_script rounds t =
     (if is_slot_full t date_id session_id then
        \<lparr>result_map = Map.empty, report_tracker = t, report_rounds = [], report_status = Finished\<rparr>
      else
        (let eligible_profiles =
               filter (\<lambda>profile. fst (can_profile_register t (profile_name profile) date_id session_id))
                 profiles
         in if eligible_profiles = [] then
              \<lparr>result_map = Map.empty, report_tracker = t, report_rounds = [],
               report_status = Finished\<rparr>
            else
              (case get_fresh_captcha ocr first_script of
                 None \<Rightarrow>
                   \<lparr>result_map = Map.empty, report_tracker = t, report_rounds = [],
                    report_status = Blocked\<rparr>
               | Some credential \<Rightarrow>
                   (let ls = run_rounds lower ocr max_workers date_id session_id rounds
                               \<lparr>tracker = t, pending_profiles = eligible_profiles,
                                final_results = Map.empty, captcha = credential,
                                rounds_log = [], status = Looping\<rparr>
                    in \<lparr>result_map = final_results ls, report_tracker = tracker ls,
                        report_rounds = rounds_log ls, report_status = status ls\<rparr>))))"

text \<open>An ASCII case mapping, used for the worked examples only.\<close>

definition ascii_lower :: "pystr \<Rightarrow> pystr" where
  "ascii_lower t = map (\<lambda>c. if 65 \<le> c \<and> c \<le> 90 then c + 32 else c) t"

section \<open>Worked examples: pools\<close>

text \<open>
  \<open>acquire\<close> is \<open>get_session_from_pool\<close> with the session dropped. \<open>example_pool\<close>
  is the pool of a system built for one worker after \<open>init_session_pool()\<close>;
  \<open>crowded_pool\<close> is that pool after seventeen acquisitions and no release.
\<close>

definition acquire :: "pool \<Rightarrow> pool" where
  "acquire p = (case get_session_from_pool p of Some (s, p') \<Rightarrow> p' | None \<Rightarrow> p)"

definition example_pool :: pool where
  "example_pool = init_session_pool 1 None (new_pool 1)"

definition crowded_pool :: pool where
  "crowded_pool = (acquire ^^ 17) example_pool"

section \<open>Worked examples: credential and dispatch\<close>

text \<open>
  An OCR model that reads the image \<open>[1]\<close> as a five-character text and the image
  \<open>[2]\<close> as a three-character text and raises on anything else; a page with an image
  reference; three passes: a 503 on the page request, a page and an image read as three
  characters, and a page and an image read as five characters.
\<close>

definition example_ocr :: "nat list \<Rightarrow> ocr_result" where
  "example_ocr content =
     (if content = [1] then Ocr_text (asc ''ab12c'')
      else if content = [2] then Ocr_text (asc ''abc'') else Ocr_raised)"

definition captcha_page :: pystr where
  "captcha_page = asc ''<img src='' @ [39] @ asc ''/Captcha.aspx?id=1'' @ [39] @ asc ''>''"

definition pass_503 :: captcha_attempt where
  "pass_503 = \<lparr>load_reply = Response 503 [], image_reply = Timeout_raised, success_time = 1\<rparr>"

definition pass_short :: captcha_attempt where
  "pass_short = \<lparr>load_reply = Response 200 captcha_page, image_reply = Response 200 [2],
                 success_time = 2\<rparr>"

definition pass_good :: captcha_attempt where
  "pass_good = \<lparr>load_reply = Response 200 captcha_page, image_reply = Response 200 [1],
                success_time = 3\<rparr>"

text \<open>Profiles \<open>p0\<close>, \<open>p1\<close>, ... that differ in their names, and twenty of them.\<close>

definition example_profile :: "nat \<Rightarrow> profile" where
  "example_profile n =
     \<lparr>profile_name = [112, 48 + n], full_name = asc ''Nguyen Van A'', dob_day = asc ''1'',
      dob_month = asc ''2'', dob_year = asc ''1990'', phone = asc ''0900000000'',
      email = asc ''a@example.com'', id_card = asc ''001''\<rparr>"

definition twenty_profiles :: "profile list" where
  "twenty_profiles = map example_profile [0..<20]"

text \<open>
  A chunk environment in which the clock reads \<open>now\<close>, every submission receives the
  reply \<open>r\<close> and the tasks finish in the order of their submission.
\<close>

definition plain_chunk :: "real \<Rightarrow> http_reply \<Rightarrow> chunk_env" where
  "plain_chunk now r = \<lparr>chunk_now = now, replies = (\<lambda>i. r), finish_rank = (\<lambda>i. i)\<rparr>"

section \<open>Properties of the retry loop\<close>

text \<open>
  \<open>retained\<close>: the result map gives the name an outcome after which the loop keeps the
  profile (neither a success nor one of the two terminal failures). \<open>unresolved\<close>: the
  tracking store holds neither a success of the name for the pair nor a resolution of
  the name for the pair's date. \<open>good_round\<close>: every profile handed to the dispatcher
  passes \<open>can_profile_register\<close> on the tracking store of that moment, and every
  submission event of the round is for the pair, with the round's credential text, and
  for one of those profiles. \<open>loop_inv\<close>: while the loop goes on, every pending
  profile passes \<open>can_profile_register\<close>, and every round so far is a good round.
\<close>

definition retained :: "results \<Rightarrow> pystr \<Rightarrow> bool" where
  "retained R n =
     (case lookup_result R n of (success, tag, resp) \<Rightarrow>
        \<not> success \<and> tag \<noteq> SLOT_FULL \<and> tag \<noteq> ALREADY_REGISTERED)"

definition unresolved :: "tracker \<Rightarrow> pystr \<Rightarrow> int \<Rightarrow> int \<Rightarrow> bool" where
  "unresolved t n d s =
     ((n, d, s) \<notin> successful_pairs_set t \<and> \<not> is_profile_already_registered_for_date t n d)"

definition good_round :: "int \<Rightarrow> int \<Rightarrow> round_obs \<Rightarrow> bool" where
  "good_round d s ob =
     ((\<forall>p\<in>set (dispatched ob). fst (can_profile_register (round_tracker ob) (profile_name p) d s))
      \<and> (\<forall>p d' s' c. Submit p d' s' c \<in> set (round_events ob) \<longrightarrow>
            d' = d \<and> s' = s \<and> c = fst (used_captcha ob) \<and> p \<in> set (dispatched ob)))"

definition loop_inv :: "int \<Rightarrow> int \<Rightarrow> loop_state \<Rightarrow> bool" where
  "loop_inv d s ls =
     ((status ls = Looping \<longrightarrow>
         (\<forall>p\<in>set (pending_profiles ls).
            fst (can_profile_register (tracker ls) (profile_name p) d s)))
      \<and> (\<forall>ob\<in>set (rounds_log ls). good_round d s ob))"

section \<open>Worked examples: retry loop\<close>

text \<open>
  A pass that yields the credential \<open>ab12c\<close> stamped at time 0. A round in which every
  clock reading is \<open>now\<close>, every submission is answered with status 200 and the body
  \<open>success\<close>, and no pass is available to \<open>get_fresh_captcha\<close>. An empty tracking
  store. The loop state on entry for the single profile \<open>p0\<close> and the pair (67, 101).
  \<open>quick_run\<close>: one round at time 1. \<open>stale_run\<close>: two rounds, at times 56 and 57.
\<close>

definition pass_at_zero :: captcha_attempt where
  "pass_at_zero = \<lparr>load_reply = Response 200 captcha_page, image_reply = Response 200 [1],
                   success_time = 0\<rparr>"

definition steady_round :: "real \<Rightarrow> round_env" where
  "steady_round now =
     \<lparr>ttl_now = now, ttl_script = [],
      chunk_world = (\<lambda>k. plain_chunk now (Response 200 (asc ''success''))),
      error_script = []\<rparr>"

definition empty_tracker :: tracker where
  "empty_tracker =
     \<lparr>slot_full_pairs = {}, already_registered_profiles = Map.empty,
      profile_successful_pairs = Map.empty, successful_pairs_set = {},
      successful_registrations = [], failed_registrations = [], log_queue = []\<rparr>"

definition example_loop_state :: loop_state where
  "example_loop_state =
     \<lparr>tracker = empty_tracker, pending_profiles = [example_profile 0],
      final_results = Map.empty, captcha = (asc ''ab12c'', 0), rounds_log = [],
      status = Looping\<rparr>"

definition quick_run :: report where
  "quick_run =
     register_all_profiles_parallel ascii_lower example_ocr 8 [example_profile 0] 67 101
       [pass_at_zero] [steady_round 1] empty_tracker"

definition stale_run :: report where
  "stale_run =
     register_all_profiles_parallel ascii_lower example_ocr 8 [example_profile 0] 67 101
       [pass_at_zero] [steady_round 56, steady_round 57] empty_tracker"

definition outcome_of :: "pystr \<Rightarrow> round_obs \<Rightarrow> outcome option" where
  "outcome_of name ob = round_results ob name"

section \<open>Substring facts\<close>

lemma starts_with_prefix: "starts_with n h = prefix n h"
  by (induction n h rule: starts_with.induct) simp_all

lemma py_in_sublist: "py_in n h = sublist n h"
proof (induction h)
  case Nil
  then show ?case by simp
next
  case (Cons a h)
  show ?case
  proof (cases n)
    case Nil
    then show ?thesis by simp
  next
    case (Cons x xs)
    then show ?thesis
      using Cons.IH by (simp add: starts_with_prefix sublist_Cons_right del: starts_with.simps)
  qed
qed

lemma any_in_list_ex: "any_in ps t = list_ex (\<lambda>p. sublist p t) ps"
  by (induction ps) (simp_all add: py_in_sublist)

section \<open>Classification theorems\<close>

text \<open>
  C4. For every response body, \<open>classify_error\<close> returns what the fixed precedence order
  gives on the lowercased body, first match wins: an empty body is \<open>EMPTY_RESPONSE\<close>;
  otherwise the first of success, bad captcha, slot exhaustion, already registered,
  server error, temporarily closed, connectivity whose phrase list has a phrase occurring
  in the lowercased body; otherwise \<open>UNKNOWN_ERROR\<close> with the first 100 characters of
  the body after the fixed label.
\<close>

theorem classify_error_precedence:
  "classify_error lower body status_code = classify_by_precedence lower body"
  by (simp add: classify_error_def classify_by_precedence_def precedence_table_def
      any_in_list_ex Let_def)

lemma asc_simps: "asc [] = []" "asc (c # cs) = of_char c # asc cs"
  by (simp_all add: asc_def)

theorem classify_error_precedence_witness:
  "classify_error ascii_lower (asc ''Invalid Captcha, out of stock'') 200
     = (CAPTCHA_ERROR, desc_captcha)
   \<and> classify_by_precedence ascii_lower (asc ''Invalid Captcha, out of stock'')
     = (CAPTCHA_ERROR, desc_captcha)"
proof -
  have "classify_error ascii_lower (asc ''Invalid Captcha, out of stock'') 200
          = (CAPTCHA_ERROR, desc_captcha)"
    by (simp add: classify_error_def ascii_lower_def asc_simps success_indicators_def
        captcha_error_indicators_def Let_def)
  then show ?thesis
    using classify_error_precedence [of ascii_lower "asc ''Invalid Captcha, out of stock''" 200]
    by simp
qed

section \<open>Pool facts\<close>

lemmas pool_defs = take_idle_def create_under_cap_def create_on_stop_def create_counted_def
  create_session_with_pool_def get_session_from_pool_def return_session_to_pool_def
  pool_total_def

lemma example_pool_value:
  "example_pool = \<lparr>session_pool = [0], max_pool_size = 9, hard_cap = 17,
      inflight_sessions = 0, stop_event = False, created = 1, closed_sessions = [],
      pool_log = []\<rparr>"
  by (simp add: example_pool_def init_session_pool_def new_pool_def create_session_with_pool_def)

lemma example_pool_acquire:
  "get_session_from_pool example_pool =
     Some (0, \<lparr>session_pool = [], max_pool_size = 9, hard_cap = 17,
      inflight_sessions = 1, stop_event = False, created = 1, closed_sessions = [],
      pool_log = [Acquired 0]\<rparr>)"
  by (simp add: example_pool_value pool_defs)

lemma crowded_pool_value:
  "crowded_pool = \<lparr>session_pool = [], max_pool_size = 9, hard_cap = 17,
      inflight_sessions = 17, stop_event = False, created = 17, closed_sessions = [],
      pool_log = map Acquired [0..<17]\<rparr>"
  by (simp add: crowded_pool_def acquire_def example_pool_value pool_defs eval_nat_numeral
      Let_def upt_rec)

lemma get_session_log:
  "get_session_from_pool p = Some (s, p1) \<Longrightarrow>
     pool_log p1 = pool_log p @ [Acquired s] \<and> inflight_sessions p1 = inflight_sessions p + 1"
  by (auto simp: pool_defs Let_def split: option.splits list.splits if_splits)

lemma return_session_effect:
  "pool_log (return_session_to_pool s p) = pool_log p @ [Released s]"
  "inflight_sessions (return_session_to_pool s p) = inflight_sessions p - 1"
  "s \<in> set (session_pool (return_session_to_pool s p))
     \<or> s \<in> set (closed_sessions (return_session_to_pool s p))"
  by (auto simp: return_session_to_pool_def Let_def)

lemma fill_pool_facts:
  "length (session_pool (fill_pool n p)) = length (session_pool p) + n
   \<and> inflight_sessions (fill_pool n p) = inflight_sessions p
   \<and> hard_cap (fill_pool n p) = hard_cap p
   \<and> stop_event (fill_pool n p) = stop_event p"
  by (induction n arbitrary: p) (auto simp: create_session_with_pool_def)

lemma init_total:
  "pool_total (init_session_pool mw pool_size (new_pool mw))
     = int (nat (case pool_size of None \<Rightarrow> mw | Some n \<Rightarrow> n))"
  "hard_cap (init_session_pool mw pool_size (new_pool mw)) = mw + 16"
  "stop_event (init_session_pool mw pool_size (new_pool mw)) = False"
  by (simp_all add: init_session_pool_def new_pool_def pool_total_def fill_pool_facts Let_def)

lemma step_keeps_cap:
  assumes "pool_step p q" "hard_cap p = c" "stop_event p \<or> pool_total p \<le> c"
  shows "hard_cap q = c \<and> (stop_event q \<or> pool_total q \<le> c)"
  using assms
  by (induction rule: pool_step.induct)
     (auto simp: pool_defs Let_def split: list.splits if_splits)

lemma reach_keeps_cap:
  assumes "pool_step\<^sup>*\<^sup>* p0 p" "hard_cap p0 = c" "stop_event p0 \<or> pool_total p0 \<le> c"
  shows "hard_cap p = c \<and> (stop_event p \<or> pool_total p \<le> c)"
  using assms
proof (induction rule: rtranclp_induct)
  case base
  then show ?case by simp
next
  case (step y z)
  then show ?case using step_keeps_cap by blast
qed

text \<open>
  The pool size \<open>run\<close> asks for is within the hard cap exactly when there are at most
  \<open>max_workers + 11\<close> profiles.
\<close>

lemma run_pool_size_within_cap:
  "0 \<le> max_workers \<Longrightarrow>
     (run_pool_size max_workers n_profiles \<le> max_workers + 16)
       = (int n_profiles \<le> max_workers + 11)"
  by (auto simp: run_pool_size_def)

section \<open>Pool theorems\<close>

text \<open>
  C2, as stated: idle plus in flight never exceeds the hard cap \<open>max_workers + 16\<close>, and
  every acquire preserves this. It fails once the stop event is set: the pool of a
  system built for one worker, after seventeen acquisitions, holds 17 of 17; with the
  stop event set, the next \<open>get_session_from_pool\<close> returns a session all the same and
  the count is 18.
\<close>

theorem hard_cap_bypassed_on_stop:
  "pool_total crowded_pool \<le> hard_cap crowded_pool
   \<and> get_session_from_pool (crowded_pool\<lparr>stop_event := True\<rparr>) \<noteq> None
   \<and> hard_cap (acquire (crowded_pool\<lparr>stop_event := True\<rparr>))
       < pool_total (acquire (crowded_pool\<lparr>stop_event := True\<rparr>))"
  by (simp add: crowded_pool_value acquire_def pool_defs)

text \<open>
  C2, amended: for a worker count that is not negative and a requested pool size of at
  most \<open>max_workers + 16\<close>, every state reached from the initialised pool by locked
  sections of \<open>get_session_from_pool\<close> and by calls of \<open>return_session_to_pool\<close>, in any
  interleaving, has idle plus in flight at most the hard cap \<open>max_workers + 16\<close>, as
  long as the stop event is not set.
\<close>

theorem hard_cap_invariant:
  assumes "pool_step\<^sup>*\<^sup>* (init_session_pool mw pool_size (new_pool mw)) p"
    and "\<not> stop_event p"
    and "0 \<le> mw"
    and "(case pool_size of None \<Rightarrow> mw | Some n \<Rightarrow> n) \<le> mw + 16"
  shows "pool_total p \<le> hard_cap p \<and> hard_cap p = mw + 16"
proof -
  have "pool_total (init_session_pool mw pool_size (new_pool mw)) \<le> mw + 16"
    using assms(3,4) by (simp add: init_total split: option.splits)
  with reach_keeps_cap[OF assms(1) init_total(2)] assms(2) show ?thesis by auto
qed

theorem hard_cap_invariant_witness:
  "pool_step\<^sup>*\<^sup>* (init_session_pool 1 None (new_pool 1)) (acquire example_pool)
   \<and> \<not> stop_event (acquire example_pool)
   \<and> (0::int) \<le> 1
   \<and> (case (None :: int option) of None \<Rightarrow> (1::int) | Some n \<Rightarrow> n) \<le> 1 + 16
   \<and> pool_total (acquire example_pool) \<le> hard_cap (acquire example_pool)
   \<and> hard_cap (acquire example_pool) = 17"
proof -
  have t: "take_idle example_pool = Some (0, acquire example_pool)"
    by (simp add: acquire_def example_pool_value pool_defs)
  have r: "pool_step\<^sup>*\<^sup>* (init_session_pool 1 None (new_pool 1)) (acquire example_pool)"
    using step_take[OF t] by (simp add: example_pool_def)
  have s: "\<not> stop_event (acquire example_pool)"
    by (simp add: acquire_def example_pool_value pool_defs)
  have c: "(case (None :: int option) of None \<Rightarrow> (1::int) | Some n \<Rightarrow> n) \<le> 1 + 16"
    by simp
  show ?thesis
    using hard_cap_invariant[OF r s _ c] r s by simp
qed

section \<open>Submission attempt theorems\<close>

text \<open>
  C5. For every submission attempt that receives a response whose status code is not 200,
  the attempt fails with a tag decided by the status code alone: 503 gives
  \<open>SERVER_503\<close>, 500 gives \<open>SERVER_500\<close>, any other code gives \<open>HTTP_ERROR\<close>, whatever the
  body and the case mapping are; with status code 200 the tag is the one
  \<open>classify_error\<close> gives for the body.
\<close>

theorem status_code_decides_tag:
  assumes "register_single_attempt lower (Response status_code body) p = Some (result, p')"
  shows "(status_code \<noteq> 200 \<longrightarrow>
            fst result = False \<and>
            fst (snd result) = (if status_code = 503 then SERVER_503
                                else if status_code = 500 then SERVER_500 else HTTP_ERROR) \<and>
            fst (snd result) = fst (snd (attempt_body lower' (Response status_code body'))))
       \<and> (status_code = 200 \<longrightarrow>
            fst (snd result) = fst (classify_error lower body status_code))"
  using assms
  by (auto simp: register_single_attempt_def attempt_body_def Let_def
      split: option.splits prod.splits)

theorem status_code_decides_tag_witness:
  "register_single_attempt ascii_lower (Response 503 (asc ''success'')) example_pool
     = Some ((False, SERVER_503, asc ''HTTP 503 Service Unavailable''),
             return_session_to_pool 0 (acquire example_pool))
   \<and> fst (snd (False, SERVER_503, asc ''HTTP 503 Service Unavailable'')) = SERVER_503"
proof -
  have h: "register_single_attempt ascii_lower (Response 503 (asc ''success'')) example_pool
     = Some ((False, SERVER_503, asc ''HTTP 503 Service Unavailable''),
             return_session_to_pool 0 (acquire example_pool))"
    by (simp add: register_single_attempt_def example_pool_acquire acquire_def attempt_body_def)
  show ?thesis
    using status_code_decides_tag[OF h] h by simp
qed

text \<open>
  C8. For every submission attempt and every way it ends (a response of any status and
  body, a timeout, any other exception): once the session is taken from the pool, the
  attempt returns, the pool has seen exactly that acquisition followed by exactly one
  release of the same session, the in-flight count is back at its value before the
  attempt, and the session is idle in the pool or closed.
\<close>

theorem session_released_exactly_once:
  assumes "get_session_from_pool p = Some (session, p1)"
  shows "\<exists>result p'. register_single_attempt lower reply p = Some (result, p')
           \<and> pool_log p' = pool_log p @ [Acquired session, Released session]
           \<and> inflight_sessions p' = inflight_sessions p
           \<and> (session \<in> set (session_pool p') \<or> session \<in> set (closed_sessions p'))"
  using assms get_session_log[OF assms] return_session_effect[of session p1]
  by (intro exI[of _ "attempt_body lower reply"] exI[of _ "return_session_to_pool session p1"])
     (simp add: register_single_attempt_def)

theorem session_released_exactly_once_witness:
  "get_session_from_pool example_pool = Some (0, acquire example_pool)
   \<and> (\<exists>result p'.
        register_single_attempt ascii_lower (Exception_raised (asc ''boom'')) example_pool
          = Some (result, p')
        \<and> pool_log p' = pool_log example_pool @ [Acquired 0, Released 0]
        \<and> inflight_sessions p' = inflight_sessions example_pool
        \<and> (0 \<in> set (session_pool p') \<or> 0 \<in> set (closed_sessions p')))"
proof -
  have h: "get_session_from_pool example_pool = Some (0, acquire example_pool)"
    by (simp add: example_pool_acquire acquire_def)
  show ?thesis
    using session_released_exactly_once[OF h, of ascii_lower "Exception_raised (asc ''boom'')"] h
    by simp
qed

section \<open>Credential facts\<close>

lemma attempt_retry_iff: "(captcha_attempt_once ocr a = Retry) = pass_fails ocr a"
  by (auto simp: captcha_attempt_once_def solve_image_def pass_fails_def reply_failed_def
      reply_body_def ocr_failed_def split: http_reply.splits option.splits ocr_result.splits)

lemma attempt_got:
  "captcha_attempt_once ocr a = Got (t, ts) \<Longrightarrow>
     t \<noteq> [] \<and> length t = 5 \<and> ts = success_time a
     \<and> ocr (reply_body (image_reply a)) = Ocr_text t"
  by (auto simp: captcha_attempt_once_def solve_image_def reply_body_def
      split: http_reply.splits option.splits ocr_result.splits if_splits)

lemma attempt_cases:
  "\<not> pass_fails ocr a \<Longrightarrow> \<exists>t. captcha_attempt_once ocr a = Got (t, success_time a)"
  by (auto simp: captcha_attempt_once_def solve_image_def pass_fails_def reply_failed_def
      reply_body_def ocr_failed_def split: http_reply.splits option.splits ocr_result.splits)

lemma skip_failures:
  "\<forall>f\<in>set fails. pass_fails ocr f \<Longrightarrow>
     get_fresh_captcha ocr (fails @ rest) = get_fresh_captcha ocr rest"
  by (induction fails) (simp_all add: attempt_retry_iff[symmetric])

lemma returns_decomp:
  "get_fresh_captcha ocr script = Some (t, ts) \<Longrightarrow>
     \<exists>fails a rest. script = fails @ a # rest \<and> (\<forall>f\<in>set fails. pass_fails ocr f)
        \<and> captcha_attempt_once ocr a = Got (t, ts)"
proof (induction script)
  case Nil
  then show ?case by simp
next
  case (Cons a script)
  show ?case
  proof (cases "captcha_attempt_once ocr a")
    case Retry
    with Cons obtain fails b rest where
      "script = fails @ b # rest" "\<forall>f\<in>set fails. pass_fails ocr f"
      "captcha_attempt_once ocr b = Got (t, ts)"
      by auto
    moreover have "pass_fails ocr a" using Retry by (simp add: attempt_retry_iff)
    ultimately show ?thesis
      by (intro exI[of _ "a # fails"] exI[of _ b] exI[of _ rest]) simp
  next
    case (Got c)
    with Cons.prems show ?thesis
      by (intro exI[of _ "[]"] exI[of _ a] exI[of _ script]) simp
  qed
qed

lemma captcha_page_src: "re_search_src captcha_page = Some (asc ''/Captcha.aspx?id=1'')"
  by (simp add: captcha_page_def asc_simps match_src_here_def is_quote_def)

lemma example_passes:
  "pass_fails example_ocr pass_503" "pass_fails example_ocr pass_short"
  "\<not> pass_fails example_ocr pass_good"
  by (simp_all add: pass_fails_def pass_503_def pass_short_def pass_good_def reply_failed_def
      reply_body_def ocr_failed_def example_ocr_def captcha_page_src asc_simps)

section \<open>Credential theorem\<close>

text \<open>
  C9. Whenever \<open>get_fresh_captcha\<close> returns, the token is not empty and exactly five
  characters long, it is the OCR reading of the image of the first pass that did not
  fail, every pass before that one failed, and the time stamp is the clock reading taken
  in that pass. No failing pass makes it return: over failing passes only it has not
  returned, however many they are, any number of failing passes in front changes nothing
  to the result, and it returns in the first pass that does not fail.
\<close>

theorem get_fresh_captcha_returns_valid:
  "(get_fresh_captcha ocr script = Some (token, stamp) \<longrightarrow>
      token \<noteq> [] \<and> length token = 5
      \<and> (\<exists>fails a rest. script = fails @ a # rest \<and> (\<forall>f\<in>set fails. pass_fails ocr f)
            \<and> \<not> pass_fails ocr a \<and> ocr (reply_body (image_reply a)) = Ocr_text token
            \<and> stamp = success_time a))
   \<and> ((\<forall>f\<in>set fails'. pass_fails ocr f) \<longrightarrow>
        get_fresh_captcha ocr fails' = None
        \<and> get_fresh_captcha ocr (fails' @ rest') = get_fresh_captcha ocr rest'
        \<and> (\<not> pass_fails ocr b \<longrightarrow>
             (\<exists>t. ocr (reply_body (image_reply b)) = Ocr_text t
                \<and> get_fresh_captcha ocr (fails' @ b # rest') = Some (t, success_time b))))"
proof (intro conjI impI)
  assume r: "get_fresh_captcha ocr script = Some (token, stamp)"
  from returns_decomp[OF r] obtain fails a rest where
    d: "script = fails @ a # rest" "\<forall>f\<in>set fails. pass_fails ocr f"
       "captcha_attempt_once ocr a = Got (token, stamp)" by blast
  from attempt_got[OF d(3)] show "token \<noteq> []" "length token = 5" by simp_all
  have "\<not> pass_fails ocr a" using d(3) attempt_retry_iff[of ocr a] by simp
  with d attempt_got[OF d(3)]
  show "\<exists>fails a rest. script = fails @ a # rest \<and> (\<forall>f\<in>set fails. pass_fails ocr f)
            \<and> \<not> pass_fails ocr a \<and> ocr (reply_body (image_reply a)) = Ocr_text token
            \<and> stamp = success_time a" by blast
next
  assume f: "\<forall>f\<in>set fails'. pass_fails ocr f"
  from skip_failures[OF f, of "[]"] show "get_fresh_captcha ocr fails' = None" by simp
  from skip_failures[OF f]
  show "get_fresh_captcha ocr (fails' @ rest') = get_fresh_captcha ocr rest'" .
next
  assume f: "\<forall>f\<in>set fails'. pass_fails ocr f" and b: "\<not> pass_fails ocr b"
  from attempt_cases[OF b] obtain t where
    g: "captcha_attempt_once ocr b = Got (t, success_time b)" by blast
  from attempt_got[OF g] have "ocr (reply_body (image_reply b)) = Ocr_text t" by simp
  moreover have "get_fresh_captcha ocr (fails' @ b # rest') = Some (t, success_time b)"
    using skip_failures[OF f, of "b # rest'"] g by simp
  ultimately show "\<exists>t. ocr (reply_body (image_reply b)) = Ocr_text t
                \<and> get_fresh_captcha ocr (fails' @ b # rest') = Some (t, success_time b)"
    by blast
qed

theorem get_fresh_captcha_returns_valid_witness:
  "pass_fails example_ocr pass_503 \<and> pass_fails example_ocr pass_short
   \<and> \<not> pass_fails example_ocr pass_good
   \<and> get_fresh_captcha example_ocr [pass_503, pass_short] = None
   \<and> get_fresh_captcha example_ocr ([pass_503, pass_short] @ pass_good # [pass_503])
       = Some (asc ''ab12c'', 3)
   \<and> length (asc ''ab12c'') = 5"
proof -
  have f: "\<forall>f\<in>set [pass_503, pass_short]. pass_fails example_ocr f"
    by (simp add: example_passes)
  have o: "example_ocr (reply_body (image_reply pass_good)) = Ocr_text (asc ''ab12c'')"
    by (simp add: pass_good_def reply_body_def example_ocr_def)
  have t: "success_time pass_good = 3" by (simp add: pass_good_def)
  from get_fresh_captcha_returns_valid
         [of example_ocr "[pass_503, pass_short] @ pass_good # [pass_503]" "asc ''ab12c''" 3
             "[pass_503, pass_short]" "[pass_503]" pass_good]
       f example_passes(3) o t
  show ?thesis by auto
qed

section \<open>Dispatcher facts\<close>

lemma drop_take_append: "i \<le> j \<Longrightarrow> drop i (take j xs) @ drop j xs = drop i xs"
proof -
  assume le: "i \<le> j"
  have "drop i xs = drop i (take j xs @ drop j xs)" by simp
  also have "\<dots> = drop i (take j xs) @ drop (i - length (take j xs)) (drop j xs)"
    by (simp only: drop_append)
  also have "drop (i - length (take j xs)) (drop j xs) = drop j xs"
    using le by (cases "j \<le> length xs") (simp_all add: min_def)
  finally show ?thesis by simp
qed

lemma slices_concat:
  "0 < w \<Longrightarrow> 0 \<le> i \<Longrightarrow> n = int (length xs) \<Longrightarrow>
     concat (map (\<lambda>j. py_slice xs j (j + w)) (py_range i n w)) = drop (nat i) xs"
proof (induction i n w rule: py_range.induct)
  case (1 i stop step)
  show ?case
  proof (cases "i < stop")
    case True
    have "nat i \<le> nat (i + step)" using 1(3,4) by simp
    from drop_take_append[OF this]
    have "drop (nat i) (take (nat (i + step)) xs) @ drop (nat (i + step)) xs = drop (nat i) xs" .
    moreover have "concat (map (\<lambda>j. py_slice xs j (j + step)) (py_range (i + step) stop step))
        = drop (nat (i + step)) xs"
      using 1 True by simp
    ultimately show ?thesis
      using 1(3) True by (subst py_range.simps) (simp add: py_slice_def)
  next
    case False
    then show ?thesis using 1(3,4,5) by (subst py_range.simps) simp
  qed
qed

lemma slices_butlast:
  "0 < w \<Longrightarrow> 0 \<le> i \<Longrightarrow> n = int (length xs) \<Longrightarrow>
     \<forall>c\<in>set (butlast (map (\<lambda>j. py_slice xs j (j + w)) (py_range i n w))). length c = nat w"
proof (induction i n w rule: py_range.induct)
  case (1 i stop step)
  show ?case
  proof (cases "i < stop")
    case True
    note ih = 1(1)[OF _ 1(3) _ 1(5)]
    show ?thesis
    proof (cases "i + step < stop")
      case True
      have "length (py_slice xs i (i + step)) = nat step"
        using True 1(3,4,5) by (simp add: py_slice_def min_def) linarith
      moreover have "py_range (i + step) stop step \<noteq> []"
        using True 1(3) by (subst py_range.simps) simp
      ultimately show ?thesis
        using ih 1(3,4) \<open>i < stop\<close> by (subst py_range.simps) (simp add: butlast_append)
    next
      case False
      then have "py_range (i + step) stop step = []"
        using 1(3) by (subst py_range.simps) simp
      then show ?thesis
        using 1(3) \<open>i < stop\<close> by (subst py_range.simps) simp
    qed
  next
    case False
    then show ?thesis using 1(3) by (subst py_range.simps) simp
  qed
qed

lemma slices_nonempty:
  "0 < w \<Longrightarrow> 0 \<le> i \<Longrightarrow> n = int (length xs) \<Longrightarrow>
     \<forall>c\<in>set (map (\<lambda>j. py_slice xs j (j + w)) (py_range i n w)). c \<noteq> [] \<and> length c \<le> nat w"
proof (induction i n w rule: py_range.induct)
  case (1 i stop step)
  show ?case
  proof (cases "i < stop")
    case True
    note ih = 1(1)[OF _ 1(3) _ 1(5)]
    have "py_slice xs i (i + step) \<noteq> [] \<and> length (py_slice xs i (i + step)) \<le> nat step"
      using True 1(3,4,5) by (auto simp: py_slice_def min_def)
    then show ?thesis
      using ih 1(3,4) True by (subst py_range.simps) simp
  next
    case False
    then show ?thesis using 1(3) by (subst py_range.simps) simp
  qed
qed

lemma range_nonempty: "0 < w \<Longrightarrow> i < n \<Longrightarrow> py_range i n w \<noteq> []"
  by (subst py_range.simps) simp

lemma split_chunks_spec:
  assumes "0 < w"
  shows "\<exists>chunks. split_chunks w xs = Inr chunks \<and> concat chunks = xs \<and> chunks \<noteq> []
     \<and> (\<forall>c\<in>set (butlast chunks). length c = nat w)
     \<and> length (last chunks) \<le> nat w
     \<and> (int (length xs) \<le> w \<longrightarrow> chunks = [xs])
     \<and> (w < int (length xs) \<longrightarrow> last chunks \<noteq> [])"
proof (cases "w < int (length xs)")
  case True
  let ?cs = "map (\<lambda>j. py_slice xs j (j + w)) (py_range 0 (int (length xs)) w)"
  have "0 < int (length xs)" using True assms by linarith
  from range_nonempty[OF assms this] have ne: "?cs \<noteq> []" by simp
  then have l: "last ?cs \<in> set ?cs" by (rule last_in_set)
  have a: "\<forall>c\<in>set ?cs. c \<noteq> [] \<and> length c \<le> nat w"
    by (rule slices_nonempty[OF assms order_refl refl])
  have b: "concat ?cs = xs"
    using slices_concat[OF assms order_refl refl, of xs] by simp
  have c: "\<forall>c\<in>set (butlast ?cs). length c = nat w"
    by (rule slices_butlast[OF assms order_refl refl])
  have d: "split_chunks w xs = Inr ?cs"
    using True assms by (simp add: split_chunks_def)
  from a l have e: "last ?cs \<noteq> [] \<and> length (last ?cs) \<le> nat w" by (rule bspec)
  show ?thesis
    using ne b c d e True by (intro exI[of _ ?cs]) simp
next
  case False
  then show ?thesis using assms by (simp add: split_chunks_def)
qed

lemma run_chunks_events:
  "snd (run_chunks lower world idx n d s text ts chunks (results, events)) =
     events @ concat (map (\<lambda>(k, c). chunk_trace (world (idx + k)) (idx + k) n d s text ts c)
                          (zip [0..<length chunks] chunks))"
proof (induction chunks arbitrary: idx results events)
  case Nil
  then show ?case by simp
next
  case (Cons c chunks)
  obtain r1 e1 where
    p: "process_chunk lower (world idx) idx n d s text ts c (results, events) = (r1, e1)"
    by (cases "process_chunk lower (world idx) idx n d s text ts c (results, events)")
  have e1: "e1 = events @ chunk_trace (world idx) idx n d s text ts c"
    using p by (auto simp: process_chunk_def chunk_trace_def is_captcha_valid_def Let_def
        split: if_splits)
  have z: "zip [0..<length (c # chunks)] (c # chunks)
             = (0, c) # zip (map Suc [0..<length chunks]) chunks"
    by (simp add: upt_conv_Cons map_Suc_upt del: upt_Suc)
  have m: "map (\<lambda>(k, c). chunk_trace (world (idx + k)) (idx + k) n d s text ts c)
             (zip (map Suc [0..<length chunks]) chunks)
         = map (\<lambda>(k, c). chunk_trace (world (Suc idx + k)) (Suc idx + k) n d s text ts c)
             (zip [0..<length chunks] chunks)"
    by (simp add: zip_map1 case_prod_unfold comp_def)
  show ?case
    using Cons[of "Suc idx" r1 e1] p e1 z m by simp
qed

lemma as_completed_all: "mset (map snd (as_completed env chunk)) = mset chunk"
proof -
  have "mset (as_completed env chunk) = mset (zip [0..<length chunk] chunk)"
    by (simp add: as_completed_def)
  then have "mset (map snd (as_completed env chunk))
               = mset (map snd (zip [0..<length chunk] chunk))"
    by (metis mset_map)
  then show ?thesis by simp
qed

lemma mark_expired_lookup:
  "mark_expired chunk results name =
     (if name \<in> profile_name ` set chunk then Some expired_outcome else results name)"
  by (induction chunk arbitrary: results) auto

lemma twenty_split:
  "split_chunks 8 twenty_profiles =
     Inr [map example_profile [0..<8], map example_profile [8..<16],
          map example_profile [16..<20]]"
  by (simp add: split_chunks_def twenty_profiles_def py_range.simps py_slice_def
      take_map drop_map)

section \<open>Dispatcher theorems\<close>

text \<open>
  C6. For every submission list and every worker count \<open>w\<close> of at least one: a list
  longer than \<open>w\<close> is split into consecutive chunks (their concatenation is the list),
  every chunk but the last of size \<open>w\<close> and the last not empty and of size at most
  \<open>w\<close>; a list of at most \<open>w\<close> submissions is a single chunk. The events of the dispatch
  are the events of the chunks one after the other in chunk order: for a chunk that is
  started, all its submissions handed out, then all of them collected (the collected
  tasks are the tasks of the chunk), then a pause of 30 ms only when more chunks remain.
\<close>

theorem chunked_dispatch:
  assumes "0 < w"
  shows "\<exists>chunks results.
      split_chunks w profiles = Inr chunks
    \<and> (if w < int (length profiles)
        then concat chunks = profiles \<and> chunks \<noteq> []
             \<and> (\<forall>c\<in>set (butlast chunks). length c = nat w)
             \<and> last chunks \<noteq> [] \<and> length (last chunks) \<le> nat w
        else chunks = [profiles])
    \<and> register_batch_with_shared_captcha lower world w profiles d s text ts
        = Inr (results,
               concat (map (\<lambda>(k, c). chunk_trace (world (Suc k)) (Suc k) (length chunks) d s text ts c)
                           (zip [0..<length chunks] chunks)))
    \<and> (\<forall>c\<in>set chunks. \<forall>env. mset (map snd (as_completed env c)) = mset c)"
proof -
  from split_chunks_spec[OF assms, of profiles] obtain chunks where
    c: "split_chunks w profiles = Inr chunks" "concat chunks = profiles" "chunks \<noteq> []"
       "\<forall>c\<in>set (butlast chunks). length c = nat w" "length (last chunks) \<le> nat w"
       "int (length profiles) \<le> w \<longrightarrow> chunks = [profiles]"
       "w < int (length profiles) \<longrightarrow> last chunks \<noteq> []"
    by blast
  let ?run = "run_chunks lower world 1 (length chunks) d s text ts chunks (Map.empty, [])"
  have e: "snd ?run =
      concat (map (\<lambda>(k, c). chunk_trace (world (Suc k)) (Suc k) (length chunks) d s text ts c)
                  (zip [0..<length chunks] chunks))"
    using run_chunks_events[of lower world 1 "length chunks" d s "text" ts chunks "Map.empty" "[]"]
    by simp
  have b: "register_batch_with_shared_captcha lower world w profiles d s text ts
             = Inr (fst ?run, snd ?run)"
    using c(1) by (simp add: register_batch_with_shared_captcha_def)
  have b': "register_batch_with_shared_captcha lower world w profiles d s text ts
      = Inr (fst ?run,
             concat (map (\<lambda>(k, c). chunk_trace (world (Suc k)) (Suc k) (length chunks) d s text ts c)
                         (zip [0..<length chunks] chunks)))"
    by (subst e[symmetric]) (rule b)
  have i: "if w < int (length profiles)
        then concat chunks = profiles \<and> chunks \<noteq> []
             \<and> (\<forall>c\<in>set (butlast chunks). length c = nat w)
             \<and> last chunks \<noteq> [] \<and> length (last chunks) \<le> nat w
        else chunks = [profiles]"
    using c by (simp add: not_less)
  have a: "\<forall>c\<in>set chunks. \<forall>env. mset (map snd (as_completed env c)) = mset c"
    using as_completed_all by blast
  show ?thesis
    by (intro exI[of _ chunks] exI[of _ "fst ?run"] conjI) (rule c(1) i b' a)+
qed

theorem chunked_dispatch_witness:
  "(0::int) < 8
   \<and> (\<exists>chunks results.
        split_chunks 8 twenty_profiles = Inr chunks
      \<and> map length chunks = [8, 8, 4]
      \<and> concat chunks = twenty_profiles
      \<and> register_batch_with_shared_captcha ascii_lower
            (\<lambda>k. plain_chunk 1 (Response 200 (asc ''success''))) 8 twenty_profiles 67 101
            (asc ''ab12c'') 0
          = Inr (results,
                 concat (map (\<lambda>(k, c). chunk_trace (plain_chunk 1 (Response 200 (asc ''success'')))
                                          (Suc k) (length chunks) 67 101 (asc ''ab12c'') 0 c)
                             (zip [0..<length chunks] chunks))))"
proof -
  have w: "(0::int) < 8" by simp
  have l: "int (length twenty_profiles) > 8" by (simp add: twenty_profiles_def)
  from chunked_dispatch[OF w, of twenty_profiles ascii_lower
         "\<lambda>k. plain_chunk 1 (Response 200 (asc ''success''))" 67 101 "asc ''ab12c''" 0]
  obtain chunks results where
    c: "split_chunks 8 twenty_profiles = Inr chunks"
       "concat chunks = twenty_profiles"
       "register_batch_with_shared_captcha ascii_lower
            (\<lambda>k. plain_chunk 1 (Response 200 (asc ''success''))) 8 twenty_profiles 67 101
            (asc ''ab12c'') 0
          = Inr (results,
                 concat (map (\<lambda>(k, c). chunk_trace (plain_chunk 1 (Response 200 (asc ''success'')))
                                          (Suc k) (length chunks) 67 101 (asc ''ab12c'') 0 c)
                             (zip [0..<length chunks] chunks)))"
    using l by auto
  have "chunks = [map example_profile [0..<8], map example_profile [8..<16],
                  map example_profile [16..<20]]"
    using c(1) unfolding twenty_split by simp
  then have m: "map length chunks = [8, 8, 4]"
    by simp
  show ?thesis
    by (intro conjI exI[of _ chunks] exI[of _ results]) (rule w c m)+
qed

text \<open>
  C7. For every chunk: if the clock read at the start of the chunk is 55 seconds or more
  past the acquisition time of the shared credential, then every submission of the chunk
  receives the \<open>CAPTCHA_EXPIRED\<close> outcome, the results of all other names are left as
  they were, and the dispatcher's events are unchanged: no submission of the chunk is
  handed to a worker.
\<close>

theorem expired_chunk_not_executed:
  assumes "55 \<le> chunk_now env - captcha_timestamp"
  shows "\<not> is_captcha_valid (chunk_now env) captcha_timestamp 55
    \<and> (\<exists>results'.
         process_chunk lower env chunk_idx n_chunks date_id session_id captcha_text
           captcha_timestamp chunk (results, events) = (results', events)
       \<and> (\<forall>profile\<in>set chunk. results' (profile_name profile) = Some expired_outcome)
       \<and> (\<forall>name. name \<notin> profile_name ` set chunk \<longrightarrow> results' name = results name))"
  using assms by (simp add: process_chunk_def is_captcha_valid_def mark_expired_lookup)

theorem expired_chunk_not_executed_witness:
  "(55::real) \<le> chunk_now (plain_chunk 56 (Response 200 (asc ''success''))) - 0
   \<and> (\<exists>results'.
         process_chunk ascii_lower (plain_chunk 56 (Response 200 (asc ''success''))) 1 1 67 101
           (asc ''ab12c'') 0 [example_profile 0, example_profile 1] (Map.empty, [])
           = (results', [])
       \<and> results' (profile_name (example_profile 0))
           = Some (False, CAPTCHA_EXPIRED, asc ''Captcha expired before batch'')
       \<and> results' (profile_name (example_profile 1))
           = Some (False, CAPTCHA_EXPIRED, asc ''Captcha expired before batch''))"
proof -
  have h: "(55::real) \<le> chunk_now (plain_chunk 56 (Response 200 (asc ''success''))) - 0"
    by (simp add: plain_chunk_def)
  from expired_chunk_not_executed[OF h, of ascii_lower 1 1 67 101 "asc ''ab12c''"
         "[example_profile 0, example_profile 1]" "Map.empty" "[]"]
  show ?thesis using h by (auto simp: expired_outcome_def)
qed

section \<open>Retry loop facts\<close>

lemmas tracker_defs = mark_slot_full_def mark_profile_already_registered_def
  mark_profile_successful_def log_message_def is_profile_already_registered_for_date_def
  is_slot_full_def is_profile_successful_def

lemma evaluate_profile_keeps_unresolved:
  assumes "retained R n" "unresolved (acc_tracker acc) n d s"
  shows "unresolved (acc_tracker (evaluate_profile d s R q acc)) n d s"
  using assms
  by (cases "lookup_result R (profile_name q)")
     (auto simp: evaluate_profile_def retained_def unresolved_def tracker_defs Let_def
           split: option.splits if_splits)

lemma evaluate_results_keeps_unresolved:
  assumes "retained R n" "unresolved (acc_tracker acc) n d s"
  shows "unresolved (acc_tracker (evaluate_results d s R ps acc)) n d s"
  using assms
  by (induction ps arbitrary: acc) (simp_all add: evaluate_profile_keeps_unresolved)

lemma evaluate_profile_pending:
  "set (next_pending (evaluate_profile d s R q acc)) \<union> set (captcha_error_profiles (evaluate_profile d s R q acc))
     \<subseteq> set (next_pending acc) \<union> set (captcha_error_profiles acc) \<union> {p. p = q \<and> retained R (profile_name q)}"
  by (cases "lookup_result R (profile_name q)")
     (auto simp: evaluate_profile_def retained_def Let_def split: if_splits)

lemma evaluate_results_pending:
  "set (next_pending (evaluate_results d s R ps acc)) \<union> set (captcha_error_profiles (evaluate_results d s R ps acc))
     \<subseteq> set (next_pending acc) \<union> set (captcha_error_profiles acc) \<union> {p \<in> set ps. retained R (profile_name p)}"
proof (induction ps arbitrary: acc)
  case Nil
  then show ?case by simp
next
  case (Cons q ps)
  from Cons[of "evaluate_profile d s R q acc"] evaluate_profile_pending[of d s R q acc]
  show ?case by auto
qed

lemma can_register_iff:
  "fst (can_profile_register t n d s) = (unresolved t n d s \<and> \<not> is_slot_full t d s)"
  by (simp add: can_profile_register_def unresolved_def is_profile_successful_def)

lemma split_chunks_subset:
  "split_chunks w xs = Inr cs \<Longrightarrow> c \<in> set cs \<Longrightarrow> set c \<subseteq> set xs"
proof -
  have sl: "x \<in> set (py_slice xs i j) \<Longrightarrow> x \<in> set xs" for x i j
    by (metis py_slice_def in_set_dropD in_set_takeD)
  show "split_chunks w xs = Inr cs \<Longrightarrow> c \<in> set cs \<Longrightarrow> set c \<subseteq> set xs"
    by (auto simp: split_chunks_def split: if_splits dest: sl)
qed

lemma chunk_trace_submit:
  "Submit p d' s' c \<in> set (chunk_trace env idx n d s text ts chunk) \<Longrightarrow>
     d' = d \<and> s' = s \<and> c = text \<and> p \<in> set chunk"
  by (auto simp: chunk_trace_def split: if_splits)

lemma batch_submits:
  assumes "register_batch_with_shared_captcha lower world w profiles d s text ts = Inr (R, ev)"
    and "Submit p d' s' c \<in> set ev"
  shows "d' = d \<and> s' = s \<and> c = text \<and> p \<in> set profiles"
proof -
  from assms(1) obtain chunks where
    c: "split_chunks w profiles = Inr chunks"
    and r: "run_chunks lower world 1 (length chunks) d s text ts chunks (Map.empty, []) = (R, ev)"
    by (auto simp: register_batch_with_shared_captcha_def split: sum.splits)
  from run_chunks_events[of lower world 1 "length chunks" d s "text" ts chunks "Map.empty" "[]"] r
  have "ev = concat (map (\<lambda>(k, c). chunk_trace (world (1 + k)) (1 + k) (length chunks) d s text ts c)
                          (zip [0..<length chunks] chunks))" by simp
  with assms(2) obtain k ch where
    "(k, ch) \<in> set (zip [0..<length chunks] chunks)"
    "Submit p d' s' c \<in> set (chunk_trace (world (1 + k)) (1 + k) (length chunks) d s text ts ch)"
    by auto
  then have "ch \<in> set chunks" "d' = d \<and> s' = s \<and> c = text \<and> p \<in> set ch"
    using chunk_trace_submit by (auto dest: set_zip_rightD)
  with split_chunks_subset[OF c] show ?thesis by blast
qed

lemma finish_round_fields:
  "tracker (finish_round d s pend ls) = tracker ls"
  "rounds_log (finish_round d s pend ls) = rounds_log ls"
  "pending_profiles (finish_round d s pend ls) = pend"
  "status (finish_round d s pend ls) = Looping \<Longrightarrow> \<not> is_slot_full (tracker ls) d s"
  by (simp_all add: finish_round_def split: if_splits)

lemma process_results_inv:
  assumes "\<forall>p\<in>set (pending_profiles ls). unresolved (tracker ls) (profile_name p) d s"
    and "\<forall>ob\<in>set (rounds_log ls). good_round d s ob"
  shows "loop_inv d s (process_results ocr d s env R ls)"
proof -
  let ?start = "\<lparr>acc_tracker = tracker ls, acc_final = final_results ls,
                   captcha_error_profiles = [], next_pending = []\<rparr>"
  let ?acc = "evaluate_results d s R (pending_profiles ls) ?start"
  have sub: "set (next_pending ?acc) \<union> set (captcha_error_profiles ?acc)
               \<subseteq> {p \<in> set (pending_profiles ls). retained R (profile_name p)}"
    using evaluate_results_pending[of d s R "pending_profiles ls" ?start] by simp
  have keep: "\<forall>p \<in> set (next_pending ?acc) \<union> set (captcha_error_profiles ?acc).
                 unresolved (acc_tracker ?acc) (profile_name p) d s"
  proof
    fix p assume "p \<in> set (next_pending ?acc) \<union> set (captcha_error_profiles ?acc)"
    with sub have "p \<in> set (pending_profiles ls)" "retained R (profile_name p)" by auto
    with assms(1) show "unresolved (acc_tracker ?acc) (profile_name p) d s"
      using evaluate_results_keeps_unresolved[of R "profile_name p" ?start d s "pending_profiles ls"]
      by simp
  qed
  show ?thesis
    using keep assms(2)
    by (auto simp: process_results_def loop_inv_def Let_def can_register_iff finish_round_def
        split: option.splits if_splits)
qed

lemma one_round_inv:
  assumes "loop_inv d s ls" "status ls = Looping"
  shows "loop_inv d s (one_round lower ocr w d s env ls)"
proof (cases "if \<not> is_captcha_valid (ttl_now env) (snd (captcha ls)) 60
            then get_fresh_captcha ocr (ttl_script env) else Some (captcha ls)")
  case None
  then show ?thesis using assms by (simp add: one_round_def loop_inv_def)
next
  case (Some cred)
  show ?thesis
  proof (cases "register_batch_with_shared_captcha lower (chunk_world env) w
                  (pending_profiles ls) d s (fst cred) (snd cred)")
    case (Inl e)
    then show ?thesis using assms Some by (simp add: one_round_def loop_inv_def)
  next
    case (Inr re)
    obtain R ev where re: "re = (R, ev)" by (cases re)
    let ?ob = "\<lparr>used_captcha = cred, dispatched = pending_profiles ls,
                 round_tracker = tracker ls, round_results = R, round_events = ev\<rparr>"
    let ?ls1 = "ls\<lparr>captcha := cred, rounds_log := rounds_log ls @ [?ob]\<rparr>"
    have g: "good_round d s ?ob"
      using assms batch_submits[OF Inr[unfolded re]]
      by (auto simp: good_round_def loop_inv_def)
    have a: "\<forall>p\<in>set (pending_profiles ?ls1). unresolved (tracker ?ls1) (profile_name p) d s"
      using assms by (simp add: loop_inv_def can_register_iff)
    have b: "\<forall>ob\<in>set (rounds_log ?ls1). good_round d s ob"
      using assms g by (simp add: loop_inv_def)
    have "one_round lower ocr w d s env ls = process_results ocr d s env R ?ls1"
      using Some Inr re by (simp add: one_round_def)
    with process_results_inv[OF a b] show ?thesis by simp
  qed
qed

lemma run_rounds_inv:
  "loop_inv d s ls \<Longrightarrow> loop_inv d s (run_rounds lower ocr w d s rounds ls)"
  by (induction rounds arbitrary: ls) (simp_all add: one_round_inv)

lemma report_rounds_good:
  assumes "ob \<in> set (report_rounds (register_all_profiles_parallel lower ocr w profiles d s first rounds t))"
  shows "good_round d s ob"
proof -
  let ?el = "filter (\<lambda>profile. fst (can_profile_register t (profile_name profile) d s)) profiles"
  from assms obtain cred where
    ob': "ob \<in> set (rounds_log (run_rounds lower ocr w d s rounds
            \<lparr>tracker = t, pending_profiles = ?el, final_results = Map.empty, captcha = cred,
             rounds_log = [], status = Looping\<rparr>))"
    by (auto simp: register_all_profiles_parallel_def Let_def split: if_splits option.splits)
  have "loop_inv d s \<lparr>tracker = t, pending_profiles = ?el, final_results = Map.empty,
           captcha = cred, rounds_log = [], status = Looping\<rparr>"
    by (simp add: loop_inv_def)
  from run_rounds_inv[OF this, of lower ocr w rounds] ob'
  show ?thesis by (simp add: loop_inv_def)
qed


lemma evaluate_profile_absent:
  assumes "R (profile_name q) = None"
  shows "next_pending (evaluate_profile d s R q acc) = next_pending acc @ [q]"
    "failed_registrations (acc_tracker (evaluate_profile d s R q acc))
       = failed_registrations (acc_tracker acc) @ [(profile_name q, d, s, NO_RESULT, [])]"
    "length (log_queue (acc_tracker acc)) < 10000 \<Longrightarrow>
       log_queue (acc_tracker (evaluate_profile d s R q acc))
       = log_queue (acc_tracker acc) @ [(False, profile_name q, d, s, NO_RESULT, [])]"
  using assms
  by (simp_all add: evaluate_profile_def lookup_result_def log_message_def Let_def)

lemma evaluate_profile_grows:
  "set (next_pending acc) \<subseteq> set (next_pending (evaluate_profile d s R q acc))"
  "set (failed_registrations (acc_tracker acc))
     \<subseteq> set (failed_registrations (acc_tracker (evaluate_profile d s R q acc)))"
  "set (log_queue (acc_tracker acc))
     \<subseteq> set (log_queue (acc_tracker (evaluate_profile d s R q acc)))"
  "length (log_queue (acc_tracker (evaluate_profile d s R q acc)))
     \<le> Suc (length (log_queue (acc_tracker acc)))"
  by (cases "lookup_result R (profile_name q)";
      auto simp: evaluate_profile_def tracker_defs Let_def split: if_splits)+

lemma evaluate_profile_final:
  "R n = None \<Longrightarrow> acc_final (evaluate_profile d s R q acc) n = acc_final acc n"
  by (cases "lookup_result R (profile_name q)")
     (auto simp: evaluate_profile_def lookup_result_def Let_def split: if_splits)

lemma evaluate_results_grows:
  "set (next_pending acc) \<subseteq> set (next_pending (evaluate_results d s R ps acc))"
  "set (failed_registrations (acc_tracker acc))
     \<subseteq> set (failed_registrations (acc_tracker (evaluate_results d s R ps acc)))"
  "set (log_queue (acc_tracker acc))
     \<subseteq> set (log_queue (acc_tracker (evaluate_results d s R ps acc)))"
proof (induction ps arbitrary: acc)
  case Nil
  { case 1 show ?case by simp }
  { case 2 show ?case by simp }
  { case 3 show ?case by simp }
next
  case (Cons q ps)
  { case 1 show ?case
      using Cons(1)[of "evaluate_profile d s R q acc"]
        evaluate_profile_grows(1)[where acc=acc and d=d and s=s and R=R and q=q]
      by auto }
  { case 2 show ?case
      using Cons(2)[of "evaluate_profile d s R q acc"]
        evaluate_profile_grows(2)[where acc=acc and d=d and s=s and R=R and q=q]
      by auto }
  { case 3 show ?case
      using Cons(3)[of "evaluate_profile d s R q acc"]
        evaluate_profile_grows(3)[where acc=acc and d=d and s=s and R=R and q=q]
      by auto }
qed

lemma evaluate_results_final:
  "R n = None \<Longrightarrow> acc_final (evaluate_results d s R ps acc) n = acc_final acc n"
  by (induction ps arbitrary: acc) (simp_all add: evaluate_profile_final)

lemma evaluate_results_absent:
  assumes "p \<in> set ps" "R (profile_name p) = None"
  shows "p \<in> set (next_pending (evaluate_results d s R ps acc))
       \<and> (profile_name p, d, s, NO_RESULT, [])
            \<in> set (failed_registrations (acc_tracker (evaluate_results d s R ps acc)))
       \<and> (length (log_queue (acc_tracker acc)) + length ps \<le> 10000 \<longrightarrow>
            (False, profile_name p, d, s, NO_RESULT, [])
              \<in> set (log_queue (acc_tracker (evaluate_results d s R ps acc))))"
  using assms(1)
proof (induction ps arbitrary: acc)
  case Nil
  then show ?case by simp
next
  case (Cons q ps)
  let ?acc1 = "evaluate_profile d s R q acc"
  show ?case
  proof (cases "p = q")
    case True
    have a: "p \<in> set (next_pending ?acc1)"
      and b: "(profile_name p, d, s, NO_RESULT, []) \<in> set (failed_registrations (acc_tracker ?acc1))"
      and c: "length (log_queue (acc_tracker acc)) < 10000 \<Longrightarrow>
          (False, profile_name p, d, s, NO_RESULT, []) \<in> set (log_queue (acc_tracker ?acc1))"
      using evaluate_profile_absent[where R=R and q=q and d=d and s=s and acc=acc] assms(2) True
      by simp_all
    show ?thesis
      using a b c evaluate_results_grows[where acc="?acc1" and d=d and s=s and R=R and ps=ps]
      by (auto simp del: evaluate_results.simps simp add: evaluate_results.simps(2))
  next
    case False
    with Cons.prems have "p \<in> set ps" by simp
    from Cons.IH[OF this, of ?acc1]
      evaluate_profile_grows(4)[where acc=acc and d=d and s=s and R=R and q=q]
    show ?thesis by auto
  qed
qed


lemma pass_at_zero_got:
  "get_fresh_captcha example_ocr [pass_at_zero] = Some (asc ''ab12c'', 0)"
  by (simp add: captcha_attempt_once_def solve_image_def pass_at_zero_def captcha_page_src
      example_ocr_def asc_simps)

lemma stale_batch:
  "56 \<le> now \<Longrightarrow>
   register_batch_with_shared_captcha ascii_lower (chunk_world (steady_round now)) 8
     [example_profile 0] 67 101 (asc ''ab12c'') 0
   = Inr ([profile_name (example_profile 0) \<mapsto> expired_outcome], [])"
  by (simp add: register_batch_with_shared_captcha_def split_chunks_def process_chunk_def
      steady_round_def plain_chunk_def is_captcha_valid_def)

lemma stale_eval:
  "evaluate_results 67 101 [profile_name (example_profile 0) \<mapsto> expired_outcome]
      [example_profile 0]
      \<lparr>acc_tracker = t, acc_final = f, captcha_error_profiles = [], next_pending = []\<rparr>
   = \<lparr>acc_tracker = log_message (False, profile_name (example_profile 0), 67, 101,
                         CAPTCHA_EXPIRED, asc ''Captcha expired before batch'')
                       (t\<lparr>failed_registrations := failed_registrations t @
                            [(profile_name (example_profile 0), 67, 101, CAPTCHA_EXPIRED,
                              take 200 (asc ''Captcha expired before batch''))]\<rparr>),
      acc_final = f, captcha_error_profiles = [], next_pending = [example_profile 0]\<rparr>"
  by (simp add: evaluate_profile_def lookup_result_def expired_outcome_def Let_def)

lemma stale_one_round:
  assumes "56 \<le> now" "now < 60" "captcha ls = (asc ''ab12c'', 0)"
    "pending_profiles ls = [example_profile 0]" "slot_full_pairs (tracker ls) = {}"
  shows "captcha (one_round ascii_lower example_ocr 8 67 101 (steady_round now) ls) = (asc ''ab12c'', 0)"
    "pending_profiles (one_round ascii_lower example_ocr 8 67 101 (steady_round now) ls) = [example_profile 0]"
    "slot_full_pairs (tracker (one_round ascii_lower example_ocr 8 67 101 (steady_round now) ls)) = {}"
    "status (one_round ascii_lower example_ocr 8 67 101 (steady_round now) ls) = Looping"
    "map used_captcha (rounds_log (one_round ascii_lower example_ocr 8 67 101 (steady_round now) ls))
       = map used_captcha (rounds_log ls) @ [(asc ''ab12c'', 0)]"
    "map (outcome_of (profile_name (example_profile 0))) (rounds_log (one_round ascii_lower example_ocr 8 67 101 (steady_round now) ls))
       = map (outcome_of (profile_name (example_profile 0))) (rounds_log ls) @ [Some expired_outcome]"
    "map round_events (rounds_log (one_round ascii_lower example_ocr 8 67 101 (steady_round now) ls))
       = map round_events (rounds_log ls) @ [[]]"
proof -
  have v: "is_captcha_valid (ttl_now (steady_round now)) (snd (captcha ls)) 60"
    using assms by (simp add: is_captcha_valid_def steady_round_def)
  have o: "one_round ascii_lower example_ocr 8 67 101 (steady_round now) ls =
     process_results example_ocr 67 101 (steady_round now) [profile_name (example_profile 0) \<mapsto> expired_outcome]
       (ls\<lparr>captcha := (asc ''ab12c'', 0),
           rounds_log := rounds_log ls @ [\<lparr>used_captcha = (asc ''ab12c'', 0), dispatched = [example_profile 0],
                           round_tracker = tracker ls, round_results = [profile_name (example_profile 0) \<mapsto> expired_outcome],
                           round_events = []\<rparr>]\<rparr>)"
    using v assms stale_batch[OF assms(1)] by (simp add: one_round_def)
  show "captcha (one_round ascii_lower example_ocr 8 67 101 (steady_round now) ls) = (asc ''ab12c'', 0)"
    "pending_profiles (one_round ascii_lower example_ocr 8 67 101 (steady_round now) ls) = [example_profile 0]"
    "slot_full_pairs (tracker (one_round ascii_lower example_ocr 8 67 101 (steady_round now) ls)) = {}"
    "status (one_round ascii_lower example_ocr 8 67 101 (steady_round now) ls) = Looping"
    "map used_captcha (rounds_log (one_round ascii_lower example_ocr 8 67 101 (steady_round now) ls))
       = map used_captcha (rounds_log ls) @ [(asc ''ab12c'', 0)]"
    "map (outcome_of (profile_name (example_profile 0))) (rounds_log (one_round ascii_lower example_ocr 8 67 101 (steady_round now) ls))
       = map (outcome_of (profile_name (example_profile 0))) (rounds_log ls) @ [Some expired_outcome]"
    "map round_events (rounds_log (one_round ascii_lower example_ocr 8 67 101 (steady_round now) ls))
       = map round_events (rounds_log ls) @ [[]]"
    unfolding o using assms
    by (simp_all add: process_results_def stale_eval Let_def finish_round_def log_message_def
        is_slot_full_def outcome_of_def del: evaluate_results.simps)
qed


section \<open>Retry loop theorems\<close>

text \<open>
  C3. In every round of \<open>register_all_profiles_parallel\<close>, whatever the environment
  does and however many rounds run: every profile handed to the dispatcher has no
  recorded success for the pair, is not recorded as resolved for the pair's date, and
  the pair is not in the exhausted set, all on the tracking store as it is when the round
  dispatches; every submission event of the round is for that pair and for one of those
  profiles. When the pair is exhausted on entry, or no profile is eligible, the function
  returns the empty result map with no round run and the tracking store untouched.
\<close>

theorem dispatch_only_when_eligible:
  "(\<forall>ob\<in>set (report_rounds (register_all_profiles_parallel lower ocr w profiles d s first rounds t)).
       (\<forall>p\<in>set (dispatched ob).
          (profile_name p, d, s) \<notin> successful_pairs_set (round_tracker ob)
          \<and> \<not> is_profile_already_registered_for_date (round_tracker ob) (profile_name p) d
          \<and> (d, s) \<notin> slot_full_pairs (round_tracker ob))
     \<and> (\<forall>p d' s' c. Submit p d' s' c \<in> set (round_events ob) \<longrightarrow>
            d' = d \<and> s' = s \<and> p \<in> set (dispatched ob)))
   \<and> ((d, s) \<in> slot_full_pairs t
        \<or> (\<forall>p\<in>set profiles. \<not> fst (can_profile_register t (profile_name p) d s))
      \<longrightarrow> register_all_profiles_parallel lower ocr w profiles d s first rounds t
          = \<lparr>result_map = Map.empty, report_tracker = t, report_rounds = [],
             report_status = Finished\<rparr>)"
proof -
  have a: "\<forall>ob\<in>set (report_rounds (register_all_profiles_parallel lower ocr w profiles d s first rounds t)).
       (\<forall>p\<in>set (dispatched ob).
          (profile_name p, d, s) \<notin> successful_pairs_set (round_tracker ob)
          \<and> \<not> is_profile_already_registered_for_date (round_tracker ob) (profile_name p) d
          \<and> (d, s) \<notin> slot_full_pairs (round_tracker ob))
     \<and> (\<forall>p d' s' c. Submit p d' s' c \<in> set (round_events ob) \<longrightarrow>
            d' = d \<and> s' = s \<and> p \<in> set (dispatched ob))"
  proof
    fix ob
    assume "ob \<in> set (report_rounds (register_all_profiles_parallel lower ocr w profiles d s first rounds t))"
    from report_rounds_good[OF this] have g: "good_round d s ob" .
    then have "\<forall>p\<in>set (dispatched ob).
          (profile_name p, d, s) \<notin> successful_pairs_set (round_tracker ob)
          \<and> \<not> is_profile_already_registered_for_date (round_tracker ob) (profile_name p) d
          \<and> (d, s) \<notin> slot_full_pairs (round_tracker ob)"
      by (auto simp: good_round_def can_register_iff unresolved_def is_slot_full_def)
    moreover from g have "\<forall>p d' s' c. Submit p d' s' c \<in> set (round_events ob) \<longrightarrow>
            d' = d \<and> s' = s \<and> p \<in> set (dispatched ob)"
      by (simp add: good_round_def)
    ultimately show "(\<forall>p\<in>set (dispatched ob).
          (profile_name p, d, s) \<notin> successful_pairs_set (round_tracker ob)
          \<and> \<not> is_profile_already_registered_for_date (round_tracker ob) (profile_name p) d
          \<and> (d, s) \<notin> slot_full_pairs (round_tracker ob))
     \<and> (\<forall>p d' s' c. Submit p d' s' c \<in> set (round_events ob) \<longrightarrow>
            d' = d \<and> s' = s \<and> p \<in> set (dispatched ob))" by (rule conjI)
  qed
  have b: "(d, s) \<in> slot_full_pairs t
        \<or> (\<forall>p\<in>set profiles. \<not> fst (can_profile_register t (profile_name p) d s))
      \<longrightarrow> register_all_profiles_parallel lower ocr w profiles d s first rounds t
          = \<lparr>result_map = Map.empty, report_tracker = t, report_rounds = [],
             report_status = Finished\<rparr>"
    by (auto simp: register_all_profiles_parallel_def is_slot_full_def Let_def filter_empty_conv)
  from a b show ?thesis by (rule conjI)
qed

lemma process_results_rounds_log:
  "rounds_log (process_results ocr d s env R ls) = rounds_log ls"
  by (simp add: process_results_def finish_round_def Let_def split: option.splits)

lemma quick_batch:
  "register_batch_with_shared_captcha ascii_lower (chunk_world (steady_round 1)) 8
     [example_profile 0] 67 101 (asc ''ab12c'') 0
   = Inr ([profile_name (example_profile 0) \<mapsto> (True, SUCCESS, asc ''success'')],
          [Submit (example_profile 0) 67 101 (asc ''ab12c''),
           Collected (profile_name (example_profile 0))])"
  by (simp add: register_batch_with_shared_captcha_def split_chunks_def process_chunk_def
      steady_round_def plain_chunk_def is_captcha_valid_def as_completed_def attempt_body_def
      classify_error_def ascii_lower_def success_indicators_def asc_simps Let_def)

lemma quick_run_rounds:
  "report_rounds quick_run =
     [\<lparr>used_captcha = (asc ''ab12c'', 0), dispatched = [example_profile 0],
       round_tracker = empty_tracker,
       round_results = [profile_name (example_profile 0) \<mapsto> (True, SUCCESS, asc ''success'')],
       round_events = [Submit (example_profile 0) 67 101 (asc ''ab12c''),
                       Collected (profile_name (example_profile 0))]\<rparr>]"
proof -
  have e: "fst (can_profile_register empty_tracker (profile_name (example_profile 0)) 67 101)"
    by (simp add: can_profile_register_def tracker_defs empty_tracker_def)
  have v: "is_captcha_valid (ttl_now (steady_round 1)) 0 60"
    by (simp add: is_captcha_valid_def steady_round_def)
  have "report_rounds quick_run =
          rounds_log (one_round ascii_lower example_ocr 8 67 101 (steady_round 1)
                        example_loop_state)"
    using e by (simp add: quick_run_def register_all_profiles_parallel_def pass_at_zero_got
        is_slot_full_def empty_tracker_def example_loop_state_def Let_def
        del: get_fresh_captcha.simps)
  then show ?thesis
    using v quick_batch
    by (simp add: one_round_def example_loop_state_def process_results_rounds_log)
qed

theorem dispatch_only_when_eligible_witness:
  "Submit (example_profile 0) 67 101 (asc ''ab12c'')
      \<in> set (round_events (hd (report_rounds quick_run)))
   \<and> hd (report_rounds quick_run) \<in> set (report_rounds quick_run)
   \<and> example_profile 0 \<in> set (dispatched (hd (report_rounds quick_run)))
   \<and> (profile_name (example_profile 0), 67, 101)
        \<notin> successful_pairs_set (round_tracker (hd (report_rounds quick_run)))
   \<and> \<not> is_profile_already_registered_for_date (round_tracker (hd (report_rounds quick_run)))
          (profile_name (example_profile 0)) 67
   \<and> (67, 101) \<notin> slot_full_pairs (round_tracker (hd (report_rounds quick_run)))
   \<and> (67, 101) \<in> slot_full_pairs (mark_slot_full 67 101 empty_tracker)
   \<and> register_all_profiles_parallel ascii_lower example_ocr 8 [example_profile 0] 67 101
        [pass_at_zero] [steady_round 1] (mark_slot_full 67 101 empty_tracker)
      = \<lparr>result_map = Map.empty, report_tracker = mark_slot_full 67 101 empty_tracker,
         report_rounds = [], report_status = Finished\<rparr>"
proof -
  have a: "Submit (example_profile 0) 67 101 (asc ''ab12c'')
      \<in> set (round_events (hd (report_rounds quick_run)))"
    and b: "hd (report_rounds quick_run) \<in> set (report_rounds quick_run)"
    by (simp_all add: quick_run_rounds)
  have f: "(67, 101) \<in> slot_full_pairs (mark_slot_full 67 101 empty_tracker)"
    by (simp add: mark_slot_full_def)
  from dispatch_only_when_eligible
         [of ascii_lower example_ocr 8 "[example_profile 0]" 67 101 "[pass_at_zero]"
             "[steady_round 1]" empty_tracker, folded quick_run_def]
  have "\<forall>p\<in>set (dispatched (hd (report_rounds quick_run))).
          (profile_name p, 67, 101)
             \<notin> successful_pairs_set (round_tracker (hd (report_rounds quick_run)))
          \<and> \<not> is_profile_already_registered_for_date
                 (round_tracker (hd (report_rounds quick_run))) (profile_name p) 67
          \<and> (67, 101) \<notin> slot_full_pairs (round_tracker (hd (report_rounds quick_run)))"
    and c: "example_profile 0 \<in> set (dispatched (hd (report_rounds quick_run)))"
    using a b by blast+
  then have d: "(profile_name (example_profile 0), 67, 101)
             \<notin> successful_pairs_set (round_tracker (hd (report_rounds quick_run)))
          \<and> \<not> is_profile_already_registered_for_date
                 (round_tracker (hd (report_rounds quick_run))) (profile_name (example_profile 0)) 67
          \<and> (67, 101) \<notin> slot_full_pairs (round_tracker (hd (report_rounds quick_run)))"
    by blast
  from dispatch_only_when_eligible
         [of ascii_lower example_ocr 8 "[example_profile 0]" 67 101 "[pass_at_zero]"
             "[steady_round 1]" "mark_slot_full 67 101 empty_tracker"] f
  have g: "register_all_profiles_parallel ascii_lower example_ocr 8 [example_profile 0] 67 101
        [pass_at_zero] [steady_round 1] (mark_slot_full 67 101 empty_tracker)
      = \<lparr>result_map = Map.empty, report_tracker = mark_slot_full 67 101 empty_tracker,
         report_rounds = [], report_status = Finished\<rparr>"
    by blast
  from a b c d f g show ?thesis by blast
qed

text \<open>
  C10. In every retry round, for whatever result map the dispatch produced: a pending
  profile whose name is not a key of the map is given the outcome \<open>NO_RESULT\<close>, a
  failure entry with that tag is appended to the failure list and, where the log queue
  has room for the round's entries, to the log queue; its entry in the final results is
  left as it was, and unless the round is still waiting for a credential the profile is
  in the pending list of the next round.
\<close>

theorem absent_result_kept_pending:
  assumes "profile \<in> set (pending_profiles ls)"
    and "batch_results (profile_name profile) = None"
  shows "lookup_result batch_results (profile_name profile) = (False, NO_RESULT, [])
    \<and> (profile_name profile, d, s, NO_RESULT, [])
         \<in> set (failed_registrations (tracker (process_results ocr d s env batch_results ls)))
    \<and> (length (log_queue (tracker ls)) + length (pending_profiles ls) \<le> 10000 \<longrightarrow>
         (False, profile_name profile, d, s, NO_RESULT, [])
           \<in> set (log_queue (tracker (process_results ocr d s env batch_results ls))))
    \<and> final_results (process_results ocr d s env batch_results ls) (profile_name profile)
         = final_results ls (profile_name profile)
    \<and> (status (process_results ocr d s env batch_results ls) \<noteq> Blocked \<longrightarrow>
         profile \<in> set (pending_profiles (process_results ocr d s env batch_results ls)))"
proof -
  let ?start = "\<lparr>acc_tracker = tracker ls, acc_final = final_results ls,
                   captcha_error_profiles = [], next_pending = []\<rparr>"
  let ?acc = "evaluate_results d s batch_results (pending_profiles ls) ?start"
  from evaluate_results_absent[where p=profile and ps="pending_profiles ls" and R=batch_results
         and d=d and s=s and acc="?start", OF assms]
  have a: "profile \<in> set (next_pending ?acc)"
    and b: "(profile_name profile, d, s, NO_RESULT, []) \<in> set (failed_registrations (acc_tracker ?acc))"
    and c: "length (log_queue (tracker ls)) + length (pending_profiles ls) \<le> 10000 \<longrightarrow>
            (False, profile_name profile, d, s, NO_RESULT, []) \<in> set (log_queue (acc_tracker ?acc))"
    by simp_all
  have f: "acc_final ?acc (profile_name profile) = final_results ls (profile_name profile)"
    using evaluate_results_final[where R=batch_results and n="profile_name profile" and d=d
            and s=s and ps="pending_profiles ls" and acc="?start", OF assms(2)] by simp
  have l: "lookup_result batch_results (profile_name profile) = (False, NO_RESULT, [])"
    using assms(2) by (simp add: lookup_result_def)
  show ?thesis
    using a b c f l
    by (auto simp: process_results_def finish_round_def Let_def split: option.splits)
qed

lemma absent_example_status:
  "status (process_results example_ocr 67 101 (steady_round 1) Map.empty example_loop_state)
     = Looping"
  by (simp add: process_results_def example_loop_state_def evaluate_profile_def
      lookup_result_def log_message_def empty_tracker_def finish_round_def is_slot_full_def
      Let_def)

theorem absent_result_kept_pending_witness:
  "example_profile 0 \<in> set (pending_profiles example_loop_state)
   \<and> (Map.empty :: results) (profile_name (example_profile 0)) = None
   \<and> (profile_name (example_profile 0), 67, 101, NO_RESULT, [])
        \<in> set (failed_registrations (tracker
              (process_results example_ocr 67 101 (steady_round 1) Map.empty example_loop_state)))
   \<and> (False, profile_name (example_profile 0), 67, 101, NO_RESULT, [])
        \<in> set (log_queue (tracker
              (process_results example_ocr 67 101 (steady_round 1) Map.empty example_loop_state)))
   \<and> final_results
        (process_results example_ocr 67 101 (steady_round 1) Map.empty example_loop_state)
        (profile_name (example_profile 0)) = None
   \<and> example_profile 0 \<in> set (pending_profiles
        (process_results example_ocr 67 101 (steady_round 1) Map.empty example_loop_state))"
proof -
  have h1: "example_profile 0 \<in> set (pending_profiles example_loop_state)"
    by (simp add: example_loop_state_def)
  have h2: "(Map.empty :: results) (profile_name (example_profile 0)) = None"
    by simp
  have q: "length (log_queue (tracker example_loop_state))
             + length (pending_profiles example_loop_state) \<le> 10000"
    by (simp add: example_loop_state_def empty_tracker_def)
  have f: "final_results example_loop_state (profile_name (example_profile 0)) = None"
    by (simp add: example_loop_state_def)
  from absent_result_kept_pending[OF h1 h2, of 67 101 example_ocr "steady_round 1"]
    q f absent_example_status h1 h2
  show ?thesis by simp
qed

lemma evaluate_profile_captcha_error:
  "lookup_result R (profile_name q) = (False, CAPTCHA_ERROR, resp) \<Longrightarrow>
     captcha_error_profiles (evaluate_profile d s R q acc) = captcha_error_profiles acc @ [q]"
  by (simp add: evaluate_profile_def Let_def)

lemma evaluate_profile_captcha_grows:
  "set (captcha_error_profiles acc) \<subseteq> set (captcha_error_profiles (evaluate_profile d s R q acc))"
  by (cases "lookup_result R (profile_name q)")
     (auto simp: evaluate_profile_def Let_def split: if_splits)

lemma evaluate_results_captcha_grows:
  "set (captcha_error_profiles acc) \<subseteq> set (captcha_error_profiles (evaluate_results d s R ps acc))"
proof (induction ps arbitrary: acc)
  case Nil
  then show ?case by simp
next
  case (Cons q ps)
  from Cons[of "evaluate_profile d s R q acc"]
    evaluate_profile_captcha_grows[where acc=acc and d=d and s=s and R=R and q=q]
  show ?case by auto
qed

lemma evaluate_results_captcha_error:
  assumes "p \<in> set ps" "lookup_result R (profile_name p) = (False, CAPTCHA_ERROR, resp)"
  shows "p \<in> set (captcha_error_profiles (evaluate_results d s R ps acc))"
  using assms(1)
proof (induction ps arbitrary: acc)
  case Nil
  then show ?case by simp
next
  case (Cons q ps)
  show ?case
  proof (cases "p = q")
    case True
    then have "p \<in> set (captcha_error_profiles (evaluate_profile d s R q acc))"
      using evaluate_profile_captcha_error[OF assms(2), where d=d and s=s and acc=acc] by simp
    then show ?thesis
      using evaluate_results_captcha_grows
              [where acc="evaluate_profile d s R q acc" and d=d and s=s and R=R and ps=ps]
      by auto
  next
    case False
    with Cons show ?thesis by simp
  qed
qed

text \<open>
  The sibling path: a round with a \<open>CAPTCHA_ERROR\<close> outcome among its pending profiles
  ends by calling \<open>get_fresh_captcha\<close>; the loop goes on with what that call returns, and
  does not go on before it returns.
\<close>

lemma captcha_error_forces_refresh:
  assumes "p \<in> set (pending_profiles ls)"
    and "lookup_result R (profile_name p) = (False, CAPTCHA_ERROR, resp)"
  shows "(case get_fresh_captcha ocr (error_script env) of
            None \<Rightarrow> status (process_results ocr d s env R ls) = Blocked
          | Some fresh \<Rightarrow> captcha (process_results ocr d s env R ls) = fresh)"
proof -
  let ?start = "\<lparr>acc_tracker = tracker ls, acc_final = final_results ls,
                   captcha_error_profiles = [], next_pending = []\<rparr>"
  from evaluate_results_captcha_error[OF assms, where d=d and s=s and acc="?start"]
  have "captcha_error_profiles (evaluate_results d s R (pending_profiles ls) ?start) \<noteq> []"
    by auto
  then show ?thesis
    by (simp add: process_results_def finish_round_def Let_def split: option.splits)
qed

text \<open>
  C1 at a concrete run. One profile, the pair (67, 101), the credential \<open>ab12c\<close> acquired
  at time 0. Round one runs at time 56: the 60 second check passes, the dispatcher
  refuses the chunk (56 is past 55) and the profile gets \<open>CAPTCHA_EXPIRED\<close>. Round two
  runs at time 57 with the same credential, is refused again, and the loop goes on. No
  pass was available to \<open>get_fresh_captcha\<close> in either round, so a refresh would have
  left the loop \<open>Blocked\<close>: none was attempted.
\<close>

theorem expired_round_reuses_credential:
  "map used_captcha (report_rounds stale_run) = [(asc ''ab12c'', 0), (asc ''ab12c'', 0)]
   \<and> map (outcome_of (profile_name (example_profile 0))) (report_rounds stale_run)
       = [Some expired_outcome, Some expired_outcome]
   \<and> map round_events (report_rounds stale_run) = [[], []]
   \<and> report_status stale_run = Looping"
proof -
  let ?ls0 = "\<lparr>tracker = empty_tracker, pending_profiles = [example_profile 0],
        final_results = Map.empty, captcha = (asc ''ab12c'', 0), rounds_log = [], status = Looping\<rparr>"
  let ?ls1 = "one_round ascii_lower example_ocr 8 67 101 (steady_round 56) ?ls0"
  let ?ls2 = "one_round ascii_lower example_ocr 8 67 101 (steady_round 57) ?ls1"
  have e: "fst (can_profile_register empty_tracker (profile_name (example_profile 0)) 67 101)"
    by (simp add: can_profile_register_def tracker_defs empty_tracker_def)
  note r1 = stale_one_round[of 56 ?ls0, simplified]
  have t0: "slot_full_pairs (tracker ?ls0) = {}" by (simp add: empty_tracker_def)
  note r1 = stale_one_round[of 56 ?ls0, OF _ _ _ _ t0, simplified]
  note r2 = stale_one_round[of 57 ?ls1, OF _ _ r1(1) r1(2) r1(3), simplified]
  have eq: "stale_run = \<lparr>result_map = final_results ?ls2, report_tracker = tracker ?ls2,
                        report_rounds = rounds_log ?ls2, report_status = status ?ls2\<rparr>"
    using e r1(4) by (simp add: stale_run_def register_all_profiles_parallel_def pass_at_zero_got
        is_slot_full_def empty_tracker_def Let_def del: get_fresh_captcha.simps)
  have rr: "report_rounds stale_run = rounds_log ?ls2"
    by (subst eq) simp
  have rs: "report_status stale_run = status ?ls2"
    by (subst eq) simp
  show ?thesis
    unfolding rr rs using r1(5,6,7) r2(4,5,6,7) by simp
qed

end
